theory Spec2Isabelle
  imports Main "HOL-Library.Word"
begin

section \<open>Values shared by the packages\<close>

text \<open>
  Go's \<^verbatim>\<open>interface{}\<close> values that travel through tool inputs and tool results are
  JSON-shaped. A \<^verbatim>\<open>map[string]interface{}\<close> is an association list read with
  \<open>map_of\<close>; the empty mapping is \<open>[]\<close>.
\<close>

datatype json =
    JNull
  | JBool bool
  | JNum int
  | JStr string
  | JArr "json list"
  | JObj "(string \<times> json) list"

type_synonym jmap = "(string \<times> json) list"

text \<open>\<^verbatim>\<open>v, _ := m[k].(string)\<close>: the string under the key, or the empty string.\<close>

definition str_or_empty :: "jmap \<Rightarrow> string \<Rightarrow> string" where
  "str_or_empty m k = (case map_of m k of Some (JStr s) \<Rightarrow> s | _ \<Rightarrow> [])"

text \<open>\<^verbatim>\<open>m[k].(string)\<close> without the comma-ok form: a failed assertion panics.\<close>

definition str_or_panic :: "jmap \<Rightarrow> string \<Rightarrow> string option" where
  "str_or_panic m k = (case map_of m k of Some (JStr s) \<Rightarrow> Some s | _ \<Rightarrow> None)"

text \<open>A Go \<^verbatim>\<open>map[string]bool\<close> read with \<^verbatim>\<open>m[k]\<close>: a missing key reads as false.\<close>

definition lookupB :: "(string \<rightharpoonup> bool) \<Rightarrow> string \<Rightarrow> bool" where
  "lookupB m k = (case m k of Some b \<Rightarrow> b | None \<Rightarrow> False)"

text \<open>\<^verbatim>\<open>%d\<close> of a Go \<^verbatim>\<open>int\<close>.\<close>

fun decimal :: "nat \<Rightarrow> string" where
  "decimal n = (if n < 10 then [char_of (48 + n)] else decimal (n div 10) @ [char_of (48 + n mod 10)])"

definition format_int :: "int \<Rightarrow> string" where
  "format_int i = (if i < 0 then CHR ''-'' # decimal (nat (- i)) else decimal (nat i))"

section \<open>pkg/types: tool-call records\<close>

datatype ToolCallState =
    ToolCallStatePending
  | ToolCallStateApprovalRequired
  | ToolCallStateApproved
  | ToolCallStateExecuting
  | ToolCallStateCompleted
  | ToolCallStateFailed
  | ToolCallStateDenied
  | ToolCallStateSealed

text \<open>
  The wall-clock fields of the records (\<^verbatim>\<open>CreatedAt\<close>, \<^verbatim>\<open>UpdatedAt\<close>, \<^verbatim>\<open>StartedAt\<close>,
  \<^verbatim>\<open>CompletedAt\<close>, \<^verbatim>\<open>Timestamp\<close>) hold readings of \<^verbatim>\<open>time.Now()\<close>, and \<^verbatim>\<open>DurationMs\<close>
  a difference of two of them; they are left out of the records below. Of the approval
  sub-record only \<^verbatim>\<open>Required\<close> is ever written.
\<close>

record ToolCallAuditEntry =
  audit_State :: ToolCallState
  audit_Note :: string

record ToolCallRecord =
  rec_ID :: string
  rec_Name :: string
  rec_Input :: jmap
  rec_State :: ToolCallState
  rec_ApprovalRequired :: bool
  rec_Result :: "json option"
  rec_Error :: string
  rec_IsError :: bool
  rec_AuditTrail :: "ToolCallAuditEntry list"

section \<open>pkg/core/permission.go\<close>

type_synonym PermissionDecision = string

definition PermissionAllow :: PermissionDecision where "PermissionAllow = ''allow''"
definition PermissionDeny :: PermissionDecision where "PermissionDeny = ''deny''"
definition PermissionAsk :: PermissionDecision where "PermissionAsk = ''ask''"

text \<open>
  Modelled from the spec: the three constants of \<^verbatim>\<open>types.PermissionMode\<close>, whose
  declaration is not among the sources. The spec names the default modes \<^verbatim>\<open>allow\<close>,
  \<^verbatim>\<open>approval\<close> and \<^verbatim>\<open>auto\<close>; the type itself is a Go string type, so a manager can hold
  any other string as its mode and \<^verbatim>\<open>Check\<close> has a \<^verbatim>\<open>default:\<close> branch for it.
\<close>

type_synonym PermissionMode = string

definition PermissionModeAllow :: PermissionMode where "PermissionModeAllow = ''allow''"
definition PermissionModeApproval :: PermissionMode where "PermissionModeApproval = ''approval''"
definition PermissionModeAuto :: PermissionMode where "PermissionModeAuto = ''auto''"

record ToolPermissionRule =
  rule_ToolName :: string
  rule_Decision :: PermissionDecision
  rule_Reason :: string

record PermissionStats =
  TotalChecks :: "64 word"
  AllowedCount :: "64 word"
  DeniedCount :: "64 word"
  ApprovalCount :: "64 word"
  HookErrorCount :: "64 word"

text \<open>
  The manager's lists and rules. The approval function and the hooks of the Go struct are
  only read by \<^verbatim>\<open>RequestApproval\<close>, \<^verbatim>\<open>RunPreHooks\<close> and \<^verbatim>\<open>RunPostHooks\<close>, which are not
  modelled.
\<close>

record PermissionManager =
  defaultMode :: PermissionMode
  rules :: "string \<rightharpoonup> ToolPermissionRule"
  allowList :: "string \<rightharpoonup> bool"
  denyList :: "string \<rightharpoonup> bool"
  askList :: "string \<rightharpoonup> bool"
  stats :: PermissionStats

record PermissionManagerOptions =
  opt_DefaultMode :: PermissionMode
  opt_AllowList :: "string list"
  opt_DenyList :: "string list"
  opt_AskList :: "string list"

text \<open>\<^verbatim>\<open>for _, tool := range names { m[tool] = true }\<close>\<close>

fun set_all_true :: "(string \<rightharpoonup> bool) \<Rightarrow> string list \<Rightarrow> (string \<rightharpoonup> bool)" where
  "set_all_true m [] = m"
| "set_all_true m (t # ts) = set_all_true (m(t \<mapsto> True)) ts"

definition zero_stats :: PermissionStats where
  "zero_stats = \<lparr>TotalChecks = 0, AllowedCount = 0, DeniedCount = 0, ApprovalCount = 0,
                  HookErrorCount = 0\<rparr>"

definition NewPermissionManager :: "PermissionManagerOptions option \<Rightarrow> PermissionManager" where
  "NewPermissionManager opts0 =
     (let opts = (case opts0 of
                    None \<Rightarrow> \<lparr>opt_DefaultMode = PermissionModeAuto, opt_AllowList = [],
                              opt_DenyList = [], opt_AskList = []\<rparr>
                  | Some o' \<Rightarrow> o')
      in \<lparr>defaultMode = opt_DefaultMode opts,
          rules = Map.empty,
          allowList = set_all_true Map.empty (opt_AllowList opts),
          denyList = set_all_true Map.empty (opt_DenyList opts),
          askList = set_all_true Map.empty (opt_AskList opts),
          stats = zero_stats\<rparr>)"


definition RemoveRule :: "PermissionManager \<Rightarrow> string \<Rightarrow> PermissionManager" where
  "RemoveRule pm toolName = pm\<lparr>rules := (rules pm)(toolName := None)\<rparr>"

definition SetDefaultMode :: "PermissionManager \<Rightarrow> PermissionMode \<Rightarrow> PermissionManager" where
  "SetDefaultMode pm mode = pm\<lparr>defaultMode := mode\<rparr>"

definition bump_total :: "PermissionStats \<Rightarrow> PermissionStats" where
  "bump_total s = s\<lparr>TotalChecks := TotalChecks s + 1\<rparr>"

definition bump_allowed :: "PermissionStats \<Rightarrow> PermissionStats" where
  "bump_allowed s = s\<lparr>AllowedCount := AllowedCount s + 1\<rparr>"

definition bump_denied :: "PermissionStats \<Rightarrow> PermissionStats" where
  "bump_denied s = s\<lparr>DeniedCount := DeniedCount s + 1\<rparr>"

definition bump_approval :: "PermissionStats \<Rightarrow> PermissionStats" where
  "bump_approval s = s\<lparr>ApprovalCount := ApprovalCount s + 1\<rparr>"

text \<open>
  \<^verbatim>\<open>Check\<close> returns the decision and the reason (its error result is always nil) and
  leaves the manager with its counters updated. The five numbered steps are the source's.
\<close>

definition Check :: "PermissionManager \<Rightarrow> ToolCallRecord \<Rightarrow> (PermissionDecision \<times> string) \<times> PermissionManager" where
  "Check pm0 call =
     (let pm = pm0\<lparr>stats := bump_total (stats pm0)\<rparr>;
          toolName = rec_Name call
      in if lookupB (denyList pm) toolName then
           ((PermissionDeny, ''tool is in deny list''), pm\<lparr>stats := bump_denied (stats pm)\<rparr>)
         else if lookupB (allowList pm) toolName then
           ((PermissionAllow, ''tool is in allow list''), pm\<lparr>stats := bump_allowed (stats pm)\<rparr>)
         else if lookupB (askList pm) toolName then
           ((PermissionAsk, ''tool requires approval''), pm\<lparr>stats := bump_approval (stats pm)\<rparr>)
         else case rules pm toolName of
           Some rule \<Rightarrow>
             ((rule_Decision rule, rule_Reason rule),
              pm\<lparr>stats :=
                   (if rule_Decision rule = PermissionAllow then bump_allowed (stats pm)
                    else if rule_Decision rule = PermissionDeny then bump_denied (stats pm)
                    else if rule_Decision rule = PermissionAsk then bump_approval (stats pm)
                    else stats pm)\<rparr>)
         | None \<Rightarrow>
             (let mode = defaultMode pm
              in if mode = PermissionModeAllow then
                   ((PermissionAllow, ''default mode: allow''),
                    pm\<lparr>stats := bump_allowed (stats pm)\<rparr>)
                 else if mode = PermissionModeApproval then
                   ((PermissionAsk, ''default mode: approval''),
                    pm\<lparr>stats := bump_approval (stats pm)\<rparr>)
                 else if mode = PermissionModeAuto then
                   ((PermissionAllow, ''default mode: auto (allow)''),
                    pm\<lparr>stats := bump_allowed (stats pm)\<rparr>)
                 else
                   ((PermissionAllow, ''default: allow''),
                    pm\<lparr>stats := bump_allowed (stats pm)\<rparr>)))"

definition AddToAllowList :: "PermissionManager \<Rightarrow> string \<Rightarrow> PermissionManager" where
  "AddToAllowList pm toolName =
     pm\<lparr>allowList := (allowList pm)(toolName \<mapsto> True),
        denyList := (denyList pm)(toolName := None),
        askList := (askList pm)(toolName := None)\<rparr>"

definition AddToDenyList :: "PermissionManager \<Rightarrow> string \<Rightarrow> PermissionManager" where
  "AddToDenyList pm toolName =
     pm\<lparr>denyList := (denyList pm)(toolName \<mapsto> True),
        allowList := (allowList pm)(toolName := None),
        askList := (askList pm)(toolName := None)\<rparr>"

definition AddToAskList :: "PermissionManager \<Rightarrow> string \<Rightarrow> PermissionManager" where
  "AddToAskList pm toolName =
     pm\<lparr>askList := (askList pm)(toolName \<mapsto> True),
        allowList := (allowList pm)(toolName := None),
        denyList := (denyList pm)(toolName := None)\<rparr>"

definition RemoveFromLists :: "PermissionManager \<Rightarrow> string \<Rightarrow> PermissionManager" where
  "RemoveFromLists pm toolName =
     pm\<lparr>allowList := (allowList pm)(toolName := None),
        denyList := (denyList pm)(toolName := None),
        askList := (askList pm)(toolName := None)\<rparr>"

definition IsInAllowList :: "PermissionManager \<Rightarrow> string \<Rightarrow> bool" where
  "IsInAllowList pm toolName = lookupB (allowList pm) toolName"

definition IsInDenyList :: "PermissionManager \<Rightarrow> string \<Rightarrow> bool" where
  "IsInDenyList pm toolName = lookupB (denyList pm) toolName"

definition IsInAskList :: "PermissionManager \<Rightarrow> string \<Rightarrow> bool" where
  "IsInAskList pm toolName = lookupB (askList pm) toolName"

text \<open>A caller's sequence of list operations, applied in order.\<close>

datatype list_op =
    OpAddToAllowList string
  | OpAddToDenyList string
  | OpAddToAskList string
  | OpRemoveFromLists string

fun apply_list_op :: "PermissionManager \<Rightarrow> list_op \<Rightarrow> PermissionManager" where
  "apply_list_op pm (OpAddToAllowList t) = AddToAllowList pm t"
| "apply_list_op pm (OpAddToDenyList t) = AddToDenyList pm t"
| "apply_list_op pm (OpAddToAskList t) = AddToAskList pm t"
| "apply_list_op pm (OpRemoveFromLists t) = RemoveFromLists pm t"

definition apply_list_ops :: "PermissionManager \<Rightarrow> list_op list \<Rightarrow> PermissionManager" where
  "apply_list_ops pm ops = foldl apply_list_op pm ops"

text \<open>The number of lists (allow, deny, ask) a tool name is a member of.\<close>

definition list_memberships :: "PermissionManager \<Rightarrow> string \<Rightarrow> nat" where
  "list_memberships pm t =
     (if IsInAllowList pm t then 1 else 0) + (if IsInDenyList pm t then 1 else 0)
       + (if IsInAskList pm t then 1 else 0)"

subsection \<open>The evaluation order as the specification words it\<close>








section \<open>pkg/types: messages and events\<close>

datatype MessageRole = MessageRoleUser | MessageRoleAssistant | MessageRoleSystem

record ToolUse =
  tu_ID :: string
  tu_Name :: string
  tu_Input :: jmap

record ToolResult =
  tr_ToolUseID :: string
  tr_Content :: json
  tr_IsError :: bool

datatype ContentBlock =
    TextBlock string
  | ToolUseBlock ToolUse
  | ToolResultBlock ToolResult

text \<open>
  A message's content is a slice of interface values; the assembly loop can leave nil
  entries in it, which are \<open>None\<close> here.
\<close>

record Message =
  msg_Role :: MessageRole
  msg_Content :: "ContentBlock option list"

datatype AgentRuntimeState = AgentStateReady | AgentStateWorking | AgentStatePaused

datatype BreakpointState =
    BreakpointReady
  | BreakpointPreModel
  | BreakpointStreamingModel
  | BreakpointToolPending
  | BreakpointAwaitingApproval
  | BreakpointPreTool
  | BreakpointToolExecuting
  | BreakpointPostTool

text \<open>The engine fills three fields of a snapshot: the id, the name and the state.\<close>

record ToolCallSnapshot =
  snap_ID :: string
  snap_Name :: string
  snap_State :: ToolCallState

text \<open>
  The events the engine emits. \<open>MonitorErrorEvent\<close> carries severity, phase and message;
  the step of a progress event is the agent's \<^verbatim>\<open>stepCount\<close>, a Go \<^verbatim>\<open>int\<close> (64 bits).
\<close>

datatype event =
    MonitorStateChangedEvent AgentRuntimeState
  | MonitorErrorEvent string string string
  | MonitorBreakpointChangedEvent BreakpointState BreakpointState
  | MonitorTokenUsageEvent "64 word" "64 word" "64 word"
  | ProgressTextChunkStartEvent "64 word"
  | ProgressTextChunkEvent "64 word" string
  | ProgressTextChunkEndEvent "64 word" string
  | ProgressToolStartEvent ToolCallSnapshot
  | ProgressToolEndEvent ToolCallSnapshot
  | ProgressToolErrorEvent ToolCallSnapshot string
  | ProgressDoneEvent "64 word" string

fun is_MonitorError :: "event \<Rightarrow> bool" where
  "is_MonitorError (MonitorErrorEvent sev ph m) = True"
| "is_MonitorError _ = False"

section \<open>pkg/tools/executor.go\<close>

text \<open>
  A tool's \<^verbatim>\<open>Execute\<close> returns an output and an error; the output of a failed call is
  whatever the tool returned beside the error (\<open>JNull\<close> for nil).
\<close>

record Tool =
  tool_Name :: string
  tool_Execute :: "jmap \<Rightarrow> json \<times> string option"

record ExecuteRequest =
  req_Tool :: Tool
  req_Input :: jmap

record ExecuteResult =
  res_Success :: bool
  res_Output :: json
  res_Error :: "string option"

text \<open>
  \<^verbatim>\<open>Executor.Execute\<close>. The context is \<open>None\<close> while it is live and \<open>Some e\<close> once it is
  done with error \<open>e\<close>. The engine runs its tools one after the other, so the semaphore
  (width 3) is free at every call. When the context is done as well, both cases of Go's
  \<^verbatim>\<open>select\<close> are ready and either may be taken: \<open>takes_semaphore\<close> is the choice made at
  this call, true when the semaphore case is taken and the tool is run all the same.
\<close>

definition run_tool :: "ExecuteRequest \<Rightarrow> ExecuteResult" where
  "run_tool req =
     (case tool_Execute (req_Tool req) (req_Input req) of
        (output, err) \<Rightarrow>
          \<lparr>res_Success = (err = None), res_Output = output, res_Error = err\<rparr>)"

definition Executor_Execute :: "string option \<Rightarrow> bool \<Rightarrow> ExecuteRequest \<Rightarrow> ExecuteResult" where
  "Executor_Execute ctx takes_semaphore req =
     (case ctx of
        Some e \<Rightarrow>
          (if takes_semaphore then run_tool req
           else \<lparr>res_Success = False, res_Output = JNull, res_Error = Some e\<rparr>)
      | None \<Rightarrow> run_tool req)"

definition NewToolCallRecord :: "string \<Rightarrow> string \<Rightarrow> jmap \<Rightarrow> ToolCallRecord" where
  "NewToolCallRecord id' name input =
     \<lparr>rec_ID = id', rec_Name = name, rec_Input = input, rec_State = ToolCallStatePending,
      rec_ApprovalRequired = False, rec_Result = None, rec_Error = [], rec_IsError = False,
      rec_AuditTrail = [\<lparr>audit_State = ToolCallStatePending, audit_Note = ''created''\<rparr>]\<rparr>"

section \<open>pkg/agent: the engine\<close>

text \<open>
  The agent's mutable fields. \<open>eventBus\<close> is the sequence of events emitted so far, oldest
  first. \<open>executor_calls\<close> is the effect of the executor on the world outside the agent:
  the tool name and input of every request handed to \<^verbatim>\<open>Executor.Execute\<close>, in order.
\<close>

record Agent =
  agent_id :: string
  systemPrompt :: string
  toolMap :: "string \<rightharpoonup> Tool"
  state :: AgentRuntimeState
  breakpoint :: BreakpointState
  messages :: "Message list"
  toolRecords :: "string \<rightharpoonup> ToolCallRecord"
  stepCount :: "64 word"
  eventBus :: "event list"
  executor_calls :: "(string \<times> jmap) list"

text \<open>
  The collaborators of a run. The store's save operations answer \<open>None\<close> on success and
  \<open>Some e\<close> on failure; \<open>unmarshal\<close> is \<^verbatim>\<open>json.Unmarshal\<close> into a
  \<^verbatim>\<open>map[string]interface{}\<close>, \<open>None\<close> when it returns an error; \<open>ctx\<close> is the caller's
  context and \<open>select_semaphore\<close> the choice of \<^verbatim>\<open>select\<close>, both as above.
\<close>

record Env =
  Store_SaveMessages :: "string \<Rightarrow> Message list \<Rightarrow> string option"
  Store_SaveToolCallRecords :: "string \<Rightarrow> (string \<rightharpoonup> ToolCallRecord) \<Rightarrow> string option"
  unmarshal :: "string \<Rightarrow> jmap option"
  ctx :: "string option"
  select_semaphore :: bool

datatype failure = GoError string | GoPanic string

definition emit :: "Agent \<Rightarrow> event \<Rightarrow> Agent" where
  "emit a e = a\<lparr>eventBus := eventBus a @ [e]\<rparr>"

definition setBreakpoint :: "Agent \<Rightarrow> BreakpointState \<Rightarrow> Agent" where
  "setBreakpoint a s =
     emit (a\<lparr>breakpoint := s\<rparr>) (MonitorBreakpointChangedEvent (breakpoint a) s)"

definition updateToolRecord :: "Agent \<Rightarrow> string \<Rightarrow> ToolCallState \<Rightarrow> string \<Rightarrow> Agent" where
  "updateToolRecord a id' st errorMsg =
     (case toolRecords a id' of
        None \<Rightarrow> a
      | Some record \<Rightarrow>
          (let r1 = record\<lparr>rec_State := st\<rparr>;
               r2 = (if errorMsg \<noteq> [] then r1\<lparr>rec_Error := errorMsg, rec_IsError := True\<rparr>
                     else r1);
               r3 = r2\<lparr>rec_AuditTrail :=
                        rec_AuditTrail r2 @ [\<lparr>audit_State = st, audit_Note = []\<rparr>]\<rparr>
           in a\<lparr>toolRecords := (toolRecords a)(id' \<mapsto> r3)\<rparr>))"

definition error_content :: "string \<Rightarrow> json" where
  "error_content errorMsg = JObj [(''ok'', JBool False), (''error'', JStr errorMsg)]"

definition executeSingleTool :: "Env \<Rightarrow> Agent \<Rightarrow> ToolUse \<Rightarrow> ContentBlock \<times> Agent" where
  "executeSingleTool env a0 tu =
     (let record = NewToolCallRecord (tu_ID tu) (tu_Name tu) (tu_Input tu);
          a1 = a0\<lparr>toolRecords := (toolRecords a0)(tu_ID tu \<mapsto> record)\<rparr>;
          a2 = emit a1 (ProgressToolStartEvent
                 \<lparr>snap_ID = rec_ID record, snap_Name = rec_Name record,
                  snap_State = rec_State record\<rparr>)
      in case toolMap a2 (tu_Name tu) of
           None \<Rightarrow>
             (let errorMsg = ''tool not found: '' @ tu_Name tu;
                  a3 = updateToolRecord a2 (tu_ID tu) ToolCallStateFailed errorMsg;
                  a4 = emit a3 (ProgressToolErrorEvent
                         \<lparr>snap_ID = tu_ID tu, snap_Name = tu_Name tu,
                          snap_State = ToolCallStateFailed\<rparr> errorMsg)
              in (ToolResultBlock \<lparr>tr_ToolUseID = tu_ID tu,
                    tr_Content = error_content errorMsg, tr_IsError = True\<rparr>, a4))
         | Some tool \<Rightarrow>
             (let a3 = setBreakpoint a2 BreakpointPreTool;
                  a4 = updateToolRecord a3 (tu_ID tu) ToolCallStateExecuting [];
                  a5 = setBreakpoint a4 BreakpointToolExecuting;
                  execResult = Executor_Execute (ctx env) (select_semaphore env)
                                 \<lparr>req_Tool = tool, req_Input = tu_Input tu\<rparr>;
                  a6 = a5\<lparr>executor_calls := executor_calls a5 @ [(tool_Name tool, tu_Input tu)]\<rparr>;
                  errorMsg = (case res_Error execResult of None \<Rightarrow> [] | Some e \<Rightarrow> e);
                  a7 = (if res_Success execResult then
                          (let b = updateToolRecord a6 (tu_ID tu) ToolCallStateCompleted []
                           in b\<lparr>toolRecords :=
                                 (case toolRecords b (tu_ID tu) of
                                    None \<Rightarrow> toolRecords b
                                  | Some r \<Rightarrow> (toolRecords b)(tu_ID tu \<mapsto>
                                      r\<lparr>rec_Result := Some (res_Output execResult)\<rparr>))\<rparr>)
                        else updateToolRecord a6 (tu_ID tu) ToolCallStateFailed errorMsg);
                  a8 = emit a7 (ProgressToolEndEvent
                         \<lparr>snap_ID = tu_ID tu, snap_Name = tu_Name tu,
                          snap_State = (case toolRecords a7 (tu_ID tu) of
                                          Some r \<Rightarrow> rec_State r
                                        | None \<Rightarrow> ToolCallStatePending)\<rparr>);
                  a9 = setBreakpoint a8 BreakpointPostTool
              in if res_Success execResult then
                   (ToolResultBlock \<lparr>tr_ToolUseID = tu_ID tu,
                      tr_Content = res_Output execResult, tr_IsError = False\<rparr>, a9)
                 else
                   (ToolResultBlock \<lparr>tr_ToolUseID = tu_ID tu,
                      tr_Content = error_content errorMsg, tr_IsError = True\<rparr>, a9)))"

text \<open>The loop of \<^verbatim>\<open>executeTools\<close>: one result per tool use, in order.\<close>

fun run_tool_uses :: "Env \<Rightarrow> Agent \<Rightarrow> ToolUse list \<Rightarrow> ContentBlock list \<times> Agent" where
  "run_tool_uses env a [] = ([], a)"
| "run_tool_uses env a (tu # tus) =
     (case executeSingleTool env a tu of
        (result, a') \<Rightarrow>
          (case run_tool_uses env a' tus of
             (results, a'') \<Rightarrow> (result # results, a'')))"

section \<open>pkg/agent: the model step\<close>

text \<open>
  A stream chunk. \<open>chunk_Delta\<close> is \<open>Some m\<close> when the Go field holds a
  \<^verbatim>\<open>map[string]interface{}\<close> and \<open>None\<close> for nil or anything else (the engine's type
  assertion fails on both alike).
\<close>

record StreamChunk =
  chunk_Type :: string
  chunk_Index :: int
  chunk_Delta :: "jmap option"
  chunk_Usage :: "(64 word \<times> 64 word) option"

text \<open>The local variables of the assembly loop in \<^verbatim>\<open>runModelStep\<close>.\<close>

record assembly =
  assistantContent :: "ContentBlock option list"
  currentBlockIndex :: int
  textBuffers :: "int \<rightharpoonup> string"
  inputJSONBuffers :: "int \<rightharpoonup> string"

definition initial_assembly :: assembly where
  "initial_assembly =
     \<lparr>assistantContent = [], currentBlockIndex = - 1, textBuffers = Map.empty,
      inputJSONBuffers = Map.empty\<rparr>"

text \<open>
  \<^verbatim>\<open>xs[i]\<close> on a slice: \<open>None\<close> is the index-out-of-range panic, \<open>Some None\<close> a nil
  entry.
\<close>

definition slot :: "'a list \<Rightarrow> int \<Rightarrow> 'a option" where
  "slot xs i = (if 0 \<le> i \<and> i < int (length xs) then Some (xs ! nat i) else None)"

text \<open>\<^verbatim>\<open>for len(xs) <= i { xs = append(xs, nil) }\<close>\<close>

definition pad_to :: "'a option list \<Rightarrow> int \<Rightarrow> 'a option list" where
  "pad_to xs i = xs @ replicate (nat (i + 1 - int (length xs))) None"

definition buffer_of :: "(int \<rightharpoonup> string) \<Rightarrow> int \<Rightarrow> string" where
  "buffer_of m i = (case m i of None \<Rightarrow> [] | Some s \<Rightarrow> s)"

text \<open>
  One iteration of \<^verbatim>\<open>for chunk := range stream\<close>. \<open>Inl\<close> is a panic, with the agent as
  it was when the panic struck; \<open>Inr\<close> is the agent and the locals after the iteration.
\<close>

definition process_chunk ::
  "Env \<Rightarrow> StreamChunk \<Rightarrow> Agent \<times> assembly \<Rightarrow> (string \<times> Agent) + (Agent \<times> assembly)" where
  "process_chunk env chunk s =
     (case s of (a, asm) \<Rightarrow>
      if chunk_Type chunk = ''content_block_start'' then
        (let asm1 = asm\<lparr>currentBlockIndex := chunk_Index chunk\<rparr>;
             i = chunk_Index chunk
         in case chunk_Delta chunk of
              None \<Rightarrow> Inr (a, asm1)
            | Some delta \<Rightarrow>
                (let blockType = str_or_empty delta ''type''
                 in if blockType = ''text'' then
                      (let a1 = emit a (ProgressTextChunkStartEvent (stepCount a));
                           padded = pad_to (assistantContent asm1) i
                       in if i < 0 then Inl (''index out of range'', a1)
                          else Inr (a1, asm1\<lparr>assistantContent :=
                                            padded[nat i := Some (TextBlock [])],
                                          textBuffers := (textBuffers asm1)(i \<mapsto> [])\<rparr>))
                    else if blockType = ''tool_use'' then
                      (let padded = pad_to (assistantContent asm1) i
                       in case (str_or_panic delta ''id'', str_or_panic delta ''name'') of
                            (Some id', Some name) \<Rightarrow>
                              if i < 0 then Inl (''index out of range'', a)
                              else Inr (a, asm1\<lparr>assistantContent :=
                                   padded[nat i := Some (ToolUseBlock
                                     \<lparr>tu_ID = id', tu_Name = name, tu_Input = []\<rparr>)]\<rparr>)
                          | _ \<Rightarrow> Inl (''interface conversion'', a))
                    else Inr (a, asm1)))
      else if chunk_Type chunk = ''content_block_delta'' then
        (let i = currentBlockIndex asm
         in case chunk_Delta chunk of
              None \<Rightarrow> Inr (a, asm)
            | Some delta \<Rightarrow>
                (let deltaType = str_or_empty delta ''type''
                 in if deltaType = ''text_delta'' then
                      (let text = str_or_empty delta ''text'';
                           buf = buffer_of (textBuffers asm) i @ text;
                           asm1 = asm\<lparr>textBuffers := (textBuffers asm)(i \<mapsto> buf)\<rparr>
                       in case slot (assistantContent asm1) i of
                            None \<Rightarrow> Inl (''index out of range'', a)
                          | Some (Some (TextBlock t)) \<Rightarrow>
                              Inr (emit a (ProgressTextChunkEvent (stepCount a) text),
                                   asm1\<lparr>assistantContent :=
                                     (assistantContent asm1)[nat i := Some (TextBlock buf)]\<rparr>)
                          | Some _ \<Rightarrow>
                              Inr (emit a (ProgressTextChunkEvent (stepCount a) text), asm1))
                    else if deltaType = ''input_json_delta'' then
                      (let partialJSON = str_or_empty delta ''partial_json''
                       in Inr (a, asm\<lparr>inputJSONBuffers := (inputJSONBuffers asm)
                                 (i \<mapsto> buffer_of (inputJSONBuffers asm) i @ partialJSON)\<rparr>))
                    else Inr (a, asm)))
      else if chunk_Type chunk = ''content_block_stop'' then
        (let i = currentBlockIndex asm
         in case slot (assistantContent asm) i of
              None \<Rightarrow> Inl (''index out of range'', a)
            | Some (Some (TextBlock t)) \<Rightarrow>
                Inr (emit a (ProgressTextChunkEndEvent (stepCount a) t), asm)
            | Some (Some (ToolUseBlock block)) \<Rightarrow>
                (case inputJSONBuffers asm i of
                   None \<Rightarrow> Inr (a, asm)
                 | Some jsonStr \<Rightarrow>
                     if jsonStr \<noteq> [] then
                       (case unmarshal env jsonStr of
                          Some input \<Rightarrow>
                            Inr (a, asm\<lparr>assistantContent := (assistantContent asm)
                                   [nat i := Some (ToolUseBlock (block\<lparr>tu_Input := input\<rparr>))]\<rparr>)
                        | None \<Rightarrow> Inr (a, asm))
                     else Inr (a, asm))
            | Some _ \<Rightarrow> Inr (a, asm))
      else if chunk_Type chunk = ''message_delta'' then
        (case chunk_Usage chunk of
           None \<Rightarrow> Inr (a, asm)
         | Some (inputTokens, outputTokens) \<Rightarrow>
             Inr (emit a (MonitorTokenUsageEvent inputTokens outputTokens
                            (inputTokens + outputTokens)), asm))
      else Inr (a, asm))"

fun process_chunks ::
  "Env \<Rightarrow> StreamChunk list \<Rightarrow> Agent \<times> assembly \<Rightarrow> (string \<times> Agent) + (Agent \<times> assembly)" where
  "process_chunks env [] s = Inr s"
| "process_chunks env (c # cs) s =
     (case process_chunk env c s of
        Inl p \<Rightarrow> Inl p
      | Inr s' \<Rightarrow> process_chunks env cs s')"

fun tool_uses_of :: "ContentBlock option list \<Rightarrow> ToolUse list" where
  "tool_uses_of [] = []"
| "tool_uses_of (Some (ToolUseBlock tu) # bs) = tu # tool_uses_of bs"
| "tool_uses_of (b # bs) = tool_uses_of bs"

text \<open>
  The provider is an external collaborator. Over one run of the step loop it is the list
  of its answers to the successive \<^verbatim>\<open>Stream\<close> calls: \<open>Inl e\<close> when the call returns the
  error \<open>e\<close>, \<open>Inr chunks\<close> when it returns a channel that delivers \<open>chunks\<close> and is then
  closed. A call beyond the end of the list fails like a provider that has gone away.

  \<^verbatim>\<open>runModelStep\<close> and \<^verbatim>\<open>executeTools\<close> call each other as in the source; an answer
  is consumed by each model step, so the recursion ends with the list.
\<close>

fun runModelStep ::
      "Env \<Rightarrow> Agent \<Rightarrow> (string + StreamChunk list) list \<Rightarrow> failure option \<times> Agent"
  and executeTools ::
      "Env \<Rightarrow> Agent \<Rightarrow> ToolUse list \<Rightarrow> (string + StreamChunk list) list \<Rightarrow> failure option \<times> Agent"
where
  "runModelStep env a [] =
     (Some (GoError ''stream model: provider closed''), setBreakpoint a BreakpointStreamingModel)"
| "runModelStep env a (Inl e # rest) =
     (Some (GoError (''stream model: '' @ e)), setBreakpoint a BreakpointStreamingModel)"
| "runModelStep env a (Inr chunks # rest) =
     (case process_chunks env chunks
             (setBreakpoint a BreakpointStreamingModel, initial_assembly) of
        Inl (p, a1) \<Rightarrow> (Some (GoPanic p), a1)
      | Inr (a1, asm) \<Rightarrow>
          (let a2 = a1\<lparr>messages := messages a1 @
                       [\<lparr>msg_Role = MessageRoleAssistant,
                         msg_Content = assistantContent asm\<rparr>]\<rparr>
           in case Store_SaveMessages env (agent_id a2) (messages a2) of
                Some e \<Rightarrow> (Some (GoError (''save messages: '' @ e)), a2)
              | None \<Rightarrow>
                  (let toolUses = tool_uses_of (assistantContent asm)
                   in if toolUses \<noteq> [] then
                        executeTools env (setBreakpoint a2 BreakpointToolPending) toolUses rest
                      else (None, a2))))"
| "executeTools env a toolUses rest =
     (case run_tool_uses env a toolUses of
        (toolResults, a1) \<Rightarrow>
          (let a2 = a1\<lparr>messages := messages a1 @
                       [\<lparr>msg_Role = MessageRoleUser, msg_Content = map Some toolResults\<rparr>],
                     stepCount := stepCount a1 + 1\<rparr>
           in case Store_SaveMessages env (agent_id a2) (messages a2) of
                Some e \<Rightarrow> (Some (GoError (''save messages: '' @ e)), a2)
              | None \<Rightarrow>
                  (case Store_SaveToolCallRecords env (agent_id a2) (toolRecords a2) of
                     Some e \<Rightarrow> (Some (GoError (''save tool records: '' @ e)), a2)
                   | None \<Rightarrow> runModelStep env a2 rest)))"

text \<open>
  \<^verbatim>\<open>processMessages\<close>. An error of the model step is reported as an event and the
  function carries on; a panic unwinds through it, the deferred reset of the state
  running on the way.
\<close>

definition processMessages ::
  "Env \<Rightarrow> Agent \<Rightarrow> (string + StreamChunk list) list \<Rightarrow> failure option \<times> Agent" where
  "processMessages env a0 answers =
     (if state a0 \<noteq> AgentStateReady then (None, a0)
      else
        (let a1 = a0\<lparr>state := AgentStateWorking\<rparr>;
             a2 = emit a1 (MonitorStateChangedEvent AgentStateWorking);
             a3 = setBreakpoint a2 BreakpointPreModel
         in case runModelStep env a3 answers of
              (Some (GoPanic p), a4) \<Rightarrow> (Some (GoPanic p), a4\<lparr>state := AgentStateReady\<rparr>)
            | (r, a4) \<Rightarrow>
                (let a5 = (case r of
                             Some (GoError e) \<Rightarrow> emit a4 (MonitorErrorEvent ''error'' ''model'' e)
                           | _ \<Rightarrow> a4);
                     a6 = emit a5 (ProgressDoneEvent (stepCount a5) ''completed'');
                     a7 = emit a6 (MonitorStateChangedEvent AgentStateReady)
                 in (None, a7\<lparr>state := AgentStateReady\<rparr>))))"

text \<open>
  \<^verbatim>\<open>Send\<close> up to its \<^verbatim>\<open>go a.processMessages(ctx)\<close>: the error it returns and the agent
  it leaves.
\<close>

definition Send :: "Env \<Rightarrow> Agent \<Rightarrow> string \<Rightarrow> string option \<times> Agent" where
  "Send env a text =
     (let message = \<lparr>msg_Role = MessageRoleUser, msg_Content = [Some (TextBlock text)]\<rparr>;
          a1 = a\<lparr>messages := messages a @ [message], stepCount := stepCount a + 1\<rparr>
      in case Store_SaveMessages env (agent_id a1) (messages a1) of
           Some e \<Rightarrow> (Some (''save messages: '' @ e), a1)
         | None \<Rightarrow> (None, a1))"

text \<open>
  A send followed by the step loop it starts, run to its end: the goroutine is started
  only when \<^verbatim>\<open>Send\<close> returns no error.
\<close>

definition Send_and_process ::
  "Env \<Rightarrow> Agent \<Rightarrow> string \<Rightarrow> (string + StreamChunk list) list \<Rightarrow> Agent" where
  "Send_and_process env a text answers =
     (case Send env a text of
        (Some e, a1) \<Rightarrow> a1
      | (None, a1) \<Rightarrow> snd (processMessages env a1 answers))"

text \<open>
  A completed model-then-tools round leaves one user-role message made of tool results
  (the model's tool uses are never empty when \<^verbatim>\<open>executeTools\<close> runs). The rounds of a
  run are counted on the messages it appended.
\<close>

fun is_tool_result :: "ContentBlock option \<Rightarrow> bool" where
  "is_tool_result (Some (ToolResultBlock r)) = True"
| "is_tool_result _ = False"

definition is_tool_round :: "Message \<Rightarrow> bool" where
  "is_tool_round m =
     (msg_Role m = MessageRoleUser \<and> msg_Content m \<noteq> [] \<and> list_all is_tool_result (msg_Content m))"

definition tool_rounds :: "Message list \<Rightarrow> nat" where
  "tool_rounds ms = length (filter is_tool_round ms)"

section \<open>pkg/agent: construction\<close>

text \<open>
  Modelled from the spec: \<^verbatim>\<open>types.ModelConfig\<close>, \<^verbatim>\<open>types.SandboxConfig\<close> and
  \<^verbatim>\<open>types.AgentConfig\<close>, whose declarations are not among the sources. The spec gives
  the agent configuration as agent id, template id, model configuration (provider, model,
  credentials), sandbox configuration (kind, working directory, options) and tools; the
  records keep the fields \<^verbatim>\<open>agent.Create\<close> reads or writes. The kind of the default
  sandbox is the constant \<^verbatim>\<open>types.SandboxKindLocal\<close>, taken to be \<^verbatim>\<open>"local"\<close>.
\<close>

record ModelConfig =
  mc_Provider :: string
  mc_Model :: string

record SandboxConfig =
  sc_Kind :: string
  sc_WorkDir :: string

record AgentConfig =
  cfg_AgentID :: string
  cfg_TemplateID :: string
  cfg_ModelConfig :: "ModelConfig option"
  cfg_Sandbox :: "SandboxConfig option"
  cfg_Tools :: "string list option"

text \<open>
  Modelled from the spec: \<^verbatim>\<open>types.AgentTemplateDefinition\<close>, whose declaration is not
  among the sources. \<^verbatim>\<open>agent.Create\<close> reads its id, system prompt, model and tools; the
  tools field is an interface that holds a list of names, the string \<^verbatim>\<open>"*"\<close>, or
  something else.
\<close>

datatype template_tools = ToolNames "string list" | AllTools | OtherTools

record AgentTemplateDefinition =
  tpl_ID :: string
  tpl_SystemPrompt :: string
  tpl_Model :: string
  tpl_Tools :: template_tools

record AgentInfo =
  info_AgentID :: string
  info_TemplateID :: string
  info_Lineage :: "string list"
  info_ConfigVersion :: string
  info_MessageCount :: int

text \<open>
  \<^verbatim>\<open>agent.Dependencies\<close>: registries, factories and the store, each an interface. A
  lookup or a load answers \<open>Inl e\<close> for an error; a factory or a save answers \<open>Some e\<close> for
  an error.
\<close>

record Dependencies =
  TemplateRegistry_Get :: "string \<Rightarrow> string + AgentTemplateDefinition"
  ProviderFactory_Create :: "ModelConfig \<Rightarrow> string option"
  SandboxFactory_Create :: "SandboxConfig \<Rightarrow> string option"
  ToolRegistry_Create :: "string \<Rightarrow> string + Tool"
  ToolRegistry_List :: "string list"
  Store_LoadMessages :: "string \<Rightarrow> string + Message list"
  Store_LoadToolCallRecords :: "string \<Rightarrow> string + ToolCallRecord list"
  Store_SaveInfo :: "string \<Rightarrow> AgentInfo \<Rightarrow> string option"

text \<open>
  \<^verbatim>\<open>generateAgentID\<close> draws a new uuid at every call; \<open>uuid\<close> is the string
  \<^verbatim>\<open>uuid.New().String()\<close> hands out at this call.
\<close>

definition generateAgentID :: "string \<Rightarrow> string" where
  "generateAgentID uuid = ''agt:'' @ uuid"

text \<open>\<^verbatim>\<open>for _, name := range toolNames\<close>: a tool the registry cannot create is skipped.\<close>

fun create_tools :: "Dependencies \<Rightarrow> (string \<rightharpoonup> Tool) \<Rightarrow> string list \<Rightarrow> (string \<rightharpoonup> Tool)" where
  "create_tools deps m [] = m"
| "create_tools deps m (name # names) =
     (case ToolRegistry_Create deps name of
        Inl e \<Rightarrow> create_tools deps m names
      | Inr tool \<Rightarrow> create_tools deps (m(name \<mapsto> tool)) names)"

text \<open>The records loaded from the store, keyed by id (each iteration has its own variable).\<close>

fun load_records :: "(string \<rightharpoonup> ToolCallRecord) \<Rightarrow> ToolCallRecord list \<Rightarrow> (string \<rightharpoonup> ToolCallRecord)" where
  "load_records m [] = m"
| "load_records m (r # rs) = load_records (m(rec_ID r \<mapsto> r)) rs"

definition initialize :: "Dependencies \<Rightarrow> string \<Rightarrow> Agent \<Rightarrow> string option \<times> Agent" where
  "initialize deps templateID a =
     (let a1 = (case Store_LoadMessages deps (agent_id a) of
                  Inr ms \<Rightarrow> (if ms \<noteq> [] then a\<lparr>messages := ms\<rparr> else a)
                | Inl e \<Rightarrow> a);
          a2 = (case Store_LoadToolCallRecords deps (agent_id a1) of
                  Inr rs \<Rightarrow> a1\<lparr>toolRecords := load_records (toolRecords a1) rs\<rparr>
                | Inl e \<Rightarrow> a1);
          info = \<lparr>info_AgentID = agent_id a2, info_TemplateID = templateID,
                  info_Lineage = [], info_ConfigVersion = ''v1.0.0'',
                  info_MessageCount = int (length (messages a2))\<rparr>
      in (Store_SaveInfo deps (agent_id a2) info, a2))"

text \<open>
  \<^verbatim>\<open>agent.Create\<close>. The configuration is passed by pointer and its id is filled in when
  empty, so the configuration is returned beside the result (\<open>Inl\<close> the error). \<open>uuid\<close>
  is the uuid this call draws if it generates an id.
\<close>

definition agent_Create ::
  "AgentConfig \<Rightarrow> Dependencies \<Rightarrow> string \<Rightarrow> (string + Agent) \<times> AgentConfig" where
  "agent_Create config0 deps uuid =
     (let config = (if cfg_AgentID config0 = [] then config0\<lparr>cfg_AgentID := generateAgentID uuid\<rparr>
                    else config0)
      in case TemplateRegistry_Get deps (cfg_TemplateID config) of
           Inl e \<Rightarrow> (Inl (''get template: '' @ e), config)
         | Inr template \<Rightarrow>
             (let modelConfig =
                    (case cfg_ModelConfig config of
                       Some mc \<Rightarrow> Some mc
                     | None \<Rightarrow>
                         (if tpl_Model template \<noteq> [] then
                            Some \<lparr>mc_Provider = ''anthropic'', mc_Model = tpl_Model template\<rparr>
                          else None))
              in case modelConfig of
                   None \<Rightarrow> (Inl ''model config is required'', config)
                 | Some mc \<Rightarrow>
                     (case ProviderFactory_Create deps mc of
                        Some e \<Rightarrow> (Inl (''create provider: '' @ e), config)
                      | None \<Rightarrow>
                          (let sandboxConfig =
                                 (case cfg_Sandbox config of
                                    Some sc \<Rightarrow> sc
                                  | None \<Rightarrow> \<lparr>sc_Kind = ''local'', sc_WorkDir = ''.''\<rparr>)
                           in case SandboxFactory_Create deps sandboxConfig of
                                Some e \<Rightarrow> (Inl (''create sandbox: '' @ e), config)
                              | None \<Rightarrow>
                                  (let toolNames =
                                         (case cfg_Tools config of
                                            Some ns \<Rightarrow> ns
                                          | None \<Rightarrow>
                                              (case tpl_Tools template of
                                                 ToolNames ns \<Rightarrow> ns
                                               | AllTools \<Rightarrow> ToolRegistry_List deps
                                               | OtherTools \<Rightarrow> []));
                                       agent = \<lparr>agent_id = cfg_AgentID config,
                                                systemPrompt = tpl_SystemPrompt template,
                                                toolMap = create_tools deps Map.empty toolNames,
                                                state = AgentStateReady,
                                                breakpoint = BreakpointReady,
                                                messages = [],
                                                toolRecords = Map.empty,
                                                stepCount = 0,
                                                eventBus = [],
                                                executor_calls = []\<rparr>
                                   in case initialize deps (tpl_ID template) agent of
                                        (Some e, a) \<Rightarrow> (Inl (''initialize agent: '' @ e), config)
                                      | (None, a) \<Rightarrow> (Inr a, config))))))"

section \<open>pkg/core/pool.go\<close>

text \<open>Go's \<^verbatim>\<open>int\<close> is taken as 64 bits wide.\<close>

record PoolOptions =
  popt_Dependencies :: Dependencies
  popt_MaxAgents :: int

record Pool =
  agents :: "string \<rightharpoonup> Agent"
  deps :: Dependencies
  maxAgents :: int

definition NewPool :: "PoolOptions \<Rightarrow> Pool" where
  "NewPool opts =
     (let maxAgents0 = popt_MaxAgents opts;
          maxAgents1 = (if maxAgents0 = 0 then 50 else maxAgents0)
      in \<lparr>agents = Map.empty, deps = popt_Dependencies opts, maxAgents = maxAgents1\<rparr>)"

text \<open>\<^verbatim>\<open>len(p.agents)\<close>\<close>

definition pool_len :: "Pool \<Rightarrow> int" where
  "pool_len p = int (card (dom (agents p)))"

text \<open>\<^verbatim>\<open>Create\<close>; \<open>uuid\<close> is the uuid the construction of the agent draws, if any.\<close>

definition Pool_Create ::
  "Pool \<Rightarrow> AgentConfig \<Rightarrow> string \<Rightarrow> (string + Agent) \<times> Pool \<times> AgentConfig" where
  "Pool_Create p config uuid =
     (if agents p (cfg_AgentID config) \<noteq> None then
        (Inl (''agent already exists: '' @ cfg_AgentID config), p, config)
      else if pool_len p \<ge> maxAgents p then
        (Inl (''pool is full (max '' @ format_int (maxAgents p) @ '' agents)''), p, config)
      else
        (case agent_Create config (deps p) uuid of
           (Inl e, config') \<Rightarrow> (Inl (''create agent: '' @ e), p, config')
         | (Inr ag, config') \<Rightarrow>
             (Inr ag, p\<lparr>agents := (agents p)(cfg_AgentID config' \<mapsto> ag)\<rparr>, config')))"

definition Pool_Get :: "Pool \<Rightarrow> string \<Rightarrow> Agent option" where
  "Pool_Get p agentID = agents p agentID"

text \<open>
  \<^verbatim>\<open>Remove\<close>. Closing an agent disposes of its sandbox and closes its provider; \<open>close\<close>
  is the error that gives, if any.
\<close>

definition Pool_Remove :: "(Agent \<Rightarrow> string option) \<Rightarrow> Pool \<Rightarrow> string \<Rightarrow> string option \<times> Pool" where
  "Pool_Remove close p agentID =
     (case agents p agentID of
        None \<Rightarrow> (Some (''agent not found: '' @ agentID), p)
      | Some ag \<Rightarrow>
          (case close ag of
             Some e \<Rightarrow> (Some (''close agent: '' @ e), p)
           | None \<Rightarrow> (None, p\<lparr>agents := (agents p)(agentID := None)\<rparr>)))"

section \<open>pkg/core/room.go\<close>

text \<open>
  The members map (name to agent id) is iterated by \<^verbatim>\<open>Say\<close>, so it is an association
  list with distinct keys; Go leaves the iteration order open, the model iterates in list
  order. The millisecond timestamp of a message is left out.
\<close>

record RoomMessage =
  rm_From :: string
  rm_To :: "string list"
  rm_Text :: string

record Room =
  members :: "(string \<times> string) list"
  history :: "RoomMessage list"

definition NewRoom :: Room where
  "NewRoom = \<lparr>members = [], history = []\<rparr>"

definition Join :: "Room \<Rightarrow> Pool \<Rightarrow> string \<Rightarrow> string \<Rightarrow> string option \<times> Room" where
  "Join r pool name agentID =
     (if map_of (members r) name \<noteq> None then (Some (''member already exists: '' @ name), r)
      else if Pool_Get pool agentID = None then (Some (''agent not found: '' @ agentID), r)
      else (None, r\<lparr>members := members r @ [(name, agentID)]\<rparr>))"

definition Leave :: "Room \<Rightarrow> string \<Rightarrow> string option \<times> Room" where
  "Leave r name =
     (if map_of (members r) name = None then (Some (''member not found: '' @ name), r)
      else (None, r\<lparr>members := filter (\<lambda>(n, a). n \<noteq> name) (members r)\<rparr>))"

text \<open>The class \<^verbatim>\<open>\w\<close> of Go's regexp package: ASCII letters, digits and the underscore.\<close>

definition word_char :: "char \<Rightarrow> bool" where
  "word_char c =
     (let n = of_char c :: nat
      in (48 \<le> n \<and> n \<le> 57) \<or> (65 \<le> n \<and> n \<le> 90) \<or> (97 \<le> n \<and> n \<le> 122) \<or> n = 95)"

text \<open>
  \<^verbatim>\<open>mentionRegex.FindAllStringSubmatch(text, -1)\<close> for the pattern \<^verbatim>\<open>@(\w+)\<close>, giving the
  captured group of each match: a match starts at the leftmost \<^verbatim>\<open>@\<close> that is followed by
  a word character, takes the longest run of word characters, and the search goes on
  behind it.
\<close>

function find_mentions :: "string \<Rightarrow> string list" where
  "find_mentions [] = []"
| "find_mentions (c # cs) =
     (if c = CHR ''@'' \<and> takeWhile word_char cs \<noteq> []
      then takeWhile word_char cs # find_mentions (dropWhile word_char cs)
      else find_mentions cs)"
  by pat_completeness auto
termination
  by (relation "measure length") (auto simp: le_imp_less_Suc length_dropWhile_le)

text \<open>The de-duplication loop: \<open>mentions\<close> is the slice built so far, which is also what
  the \<^verbatim>\<open>seen\<close> map holds.\<close>

fun collect_mentions :: "string list \<Rightarrow> string list \<Rightarrow> string list" where
  "collect_mentions mentions [] = mentions"
| "collect_mentions mentions (name # rest) =
     (if name \<in> set mentions then collect_mentions mentions rest
      else collect_mentions (mentions @ [name]) rest)"

definition extractMentions :: "string \<Rightarrow> string list" where
  "extractMentions text = collect_mentions [] (find_mentions text)"

text \<open>The targets of a directed message: the mentions that are member names, in order.\<close>

fun mention_targets :: "(string \<times> string) list \<Rightarrow> string list \<Rightarrow> (string \<times> string) list" where
  "mention_targets ms [] = []"
| "mention_targets ms (mention # rest) =
     (case map_of ms mention of
        Some agentID \<Rightarrow> (mention, agentID) # mention_targets ms rest
      | None \<Rightarrow> mention_targets ms rest)"

definition broadcast_targets :: "(string \<times> string) list \<Rightarrow> string \<Rightarrow> (string \<times> string) list" where
  "broadcast_targets ms from = filter (\<lambda>(name, agentID). name \<noteq> from) ms"

text \<open>
  A delivery is one \<^verbatim>\<open>agent.Send(ctx, txt)\<close> started by the room: the member name, the
  agent id and the text handed over.
\<close>

record Delivery =
  dl_Member :: string
  dl_AgentID :: string
  dl_Text :: string

fun deliveries :: "Pool \<Rightarrow> string \<Rightarrow> string \<Rightarrow> (string \<times> string) list \<Rightarrow> Delivery list" where
  "deliveries pool from text [] = []"
| "deliveries pool from text ((name, agentID) # targets) =
     (case Pool_Get pool agentID of
        None \<Rightarrow> deliveries pool from text targets
      | Some ag \<Rightarrow>
          \<lparr>dl_Member = name, dl_AgentID = agentID,
           dl_Text = ''[from:'' @ from @ ''] '' @ text\<rparr> # deliveries pool from text targets)"

definition Say :: "Room \<Rightarrow> Pool \<Rightarrow> string \<Rightarrow> string \<Rightarrow> string option \<times> Room \<times> Delivery list" where
  "Say r pool from text =
     (if map_of (members r) from = None then
        (Some (''sender is not a member: '' @ from), r, [])
      else
        (let mentions = extractMentions text;
             msg = \<lparr>rm_From = from, rm_To = mentions, rm_Text = text\<rparr>;
             targets = (if mentions \<noteq> [] then mention_targets (members r) mentions
                        else broadcast_targets (members r) from)
         in (None, r\<lparr>history := history r @ [msg]\<rparr>, deliveries pool from text targets)))"

text \<open>The set of members a call delivered to.\<close>

definition delivered_to :: "Delivery list \<Rightarrow> string set" where
  "delivered_to ds = set (map dl_Member ds)"

text \<open>A member of the room whose agent the pool still holds.\<close>

definition reachable_member :: "Room \<Rightarrow> Pool \<Rightarrow> string \<Rightarrow> bool" where
  "reachable_member r pool name =
     (case map_of (members r) name of
        None \<Rightarrow> False
      | Some agentID \<Rightarrow> Pool_Get pool agentID \<noteq> None)"

text \<open>
  The mention list as the specification words it: the names found, duplicates collapsed,
  each name where it occurs first.
\<close>

fun spec_first_occurrences :: "'a list \<Rightarrow> 'a list" where
  "spec_first_occurrences [] = []"
| "spec_first_occurrences (x # xs) = x # filter (\<lambda>y. y \<noteq> x) (spec_first_occurrences xs)"

section \<open>pkg/core/scheduler.go\<close>

text \<open>
  Go's \<^verbatim>\<open>int\<close> arithmetic on 64 bits: the mathematical result reduced into
  \<open>-2^63 .. 2^63 - 1\<close>.
\<close>

definition wrap64 :: "int \<Rightarrow> int" where
  "wrap64 x = (x + 2 ^ 63) mod 2 ^ 64 - 2 ^ 63"

text \<open>
  A callback is a Go function; the model knows it by a name, and running it is an
  entry of the dispatch log: \<open>ListenerCalled cb step\<close> for a step listener,
  \<open>TaskCalled k cb step\<close> for the callback of the task stored under the key \<open>k\<close>,
  \<open>OnTriggerCalled id every\<close> for the observer of the options.
\<close>

type_synonym callback = string

record StepTask =
  task_ID :: string
  task_Every :: int
  task_Callback :: callback
  task_LastTriggered :: int

datatype dispatch =
    ListenerCalled callback int
  | TaskCalled string callback int
  | OnTriggerCalled string int

text \<open>
  The step tasks are a map from id to task that \<^verbatim>\<open>NotifyStep\<close> iterates: an association
  list with distinct keys, iterated in list order. A cancelled listener is a nil entry.
\<close>

record Scheduler =
  stepTasks :: "(string \<times> StepTask) list"
  stepListeners :: "callback option list"
  has_OnTrigger :: bool

definition NewScheduler :: "bool \<Rightarrow> Scheduler" where
  "NewScheduler onTrigger = \<lparr>stepTasks = [], stepListeners = [], has_OnTrigger = onTrigger\<rparr>"

text \<open>\<^verbatim>\<open>m[k] = v\<close> on the association list.\<close>

fun assign :: "'k \<Rightarrow> 'v \<Rightarrow> ('k \<times> 'v) list \<Rightarrow> ('k \<times> 'v) list" where
  "assign k v [] = [(k, v)]"
| "assign k v ((k', v') # kvs) = (if k' = k then (k, v) # kvs else (k', v') # assign k v kvs)"

text \<open>\<open>id'\<close> is the string \<^verbatim>\<open>generateTaskID("step")\<close> returns.\<close>

definition EverySteps :: "Scheduler \<Rightarrow> int \<Rightarrow> callback \<Rightarrow> string \<Rightarrow> (string + string) \<times> Scheduler" where
  "EverySteps s every cb id' =
     (if every \<le> 0 then (Inl (''every must be positive, got '' @ format_int every), s)
      else
        (let task = \<lparr>task_ID = id', task_Every = every, task_Callback = cb,
                     task_LastTriggered = 0\<rparr>
         in (Inr id', s\<lparr>stepTasks := assign id' task (stepTasks s)\<rparr>)))"

text \<open>The cancel function \<^verbatim>\<open>OnStep\<close> returns: the captured index and the flag.\<close>

record cancel_handle =
  ch_index :: nat
  ch_cancelled :: bool

definition OnStep :: "Scheduler \<Rightarrow> callback \<Rightarrow> cancel_handle \<times> Scheduler" where
  "OnStep s cb =
     (\<lparr>ch_index = length (stepListeners s), ch_cancelled = False\<rparr>,
      s\<lparr>stepListeners := stepListeners s @ [Some cb]\<rparr>)"

definition cancel_listener :: "Scheduler \<Rightarrow> cancel_handle \<Rightarrow> cancel_handle \<times> Scheduler" where
  "cancel_listener s h =
     (if ch_cancelled h then (h, s)
      else (h\<lparr>ch_cancelled := True\<rparr>,
            if ch_index h < length (stepListeners s)
            then s\<lparr>stepListeners := (stepListeners s)[ch_index h := None]\<rparr>
            else s))"

text \<open>The two loops of \<^verbatim>\<open>NotifyStep\<close>.\<close>

fun notify_listeners :: "callback option list \<Rightarrow> int \<Rightarrow> dispatch list" where
  "notify_listeners [] step = []"
| "notify_listeners (None # ls) step = notify_listeners ls step"
| "notify_listeners (Some cb # ls) step =
     ListenerCalled cb step # notify_listeners ls step"

fun notify_tasks :: "bool \<Rightarrow> (string \<times> StepTask) list \<Rightarrow> int \<Rightarrow> (string \<times> StepTask) list \<times> dispatch list" where
  "notify_tasks ot [] step = ([], [])"
| "notify_tasks ot ((k, task) # ts) step =
     (case notify_tasks ot ts step of
        (ts', log) \<Rightarrow>
          if wrap64 (step - task_LastTriggered task) \<ge> task_Every task then
            ((k, task\<lparr>task_LastTriggered := step\<rparr>) # ts',
             TaskCalled k (task_Callback task) step
               # (if ot then [OnTriggerCalled (task_ID task) (task_Every task)] else []) @ log)
          else ((k, task) # ts', log))"

definition NotifyStep :: "Scheduler \<Rightarrow> int \<Rightarrow> Scheduler \<times> dispatch list" where
  "NotifyStep s step =
     (case notify_tasks (has_OnTrigger s) (stepTasks s) step of
        (ts', log) \<Rightarrow>
          (s\<lparr>stepTasks := ts'\<rparr>, notify_listeners (stepListeners s) step @ log))"

text \<open>Step notifications delivered one after the other; the logs are concatenated.\<close>

fun notify_all :: "Scheduler \<Rightarrow> int list \<Rightarrow> Scheduler \<times> dispatch list" where
  "notify_all s [] = (s, [])"
| "notify_all s (k # ks) =
     (case NotifyStep s k of
        (s', log) \<Rightarrow> (case notify_all s' ks of (s'', log') \<Rightarrow> (s'', log @ log')))"

text \<open>
  \<^verbatim>\<open>Clear\<close> replaces the task map and the listener slice by empty ones (and stops the
  interval tasks, which are not modelled). Cancel functions handed out before keep their
  captured index.
\<close>

definition Clear :: "Scheduler \<Rightarrow> Scheduler" where
  "Clear s = s\<lparr>stepTasks := [], stepListeners := []\<rparr>"

definition Cancel :: "Scheduler \<Rightarrow> string \<Rightarrow> string option \<times> Scheduler" where
  "Cancel s taskID =
     (if map_of (stepTasks s) taskID \<noteq> None then
        (None, s\<lparr>stepTasks := filter (\<lambda>(k, t). k \<noteq> taskID) (stepTasks s)\<rparr>)
      else (Some (''task not found: '' @ taskID), s))"

fun is_task_call :: "string \<Rightarrow> dispatch \<Rightarrow> bool" where
  "is_task_call id' (TaskCalled k cb n) = (k = id')"
| "is_task_call id' _ = False"

fun is_listener_call :: "callback \<Rightarrow> dispatch \<Rightarrow> bool" where
  "is_listener_call cb (ListenerCalled c n) = (c = cb)"
| "is_listener_call cb _ = False"

definition trigger_count :: "string \<Rightarrow> dispatch list \<Rightarrow> nat" where
  "trigger_count id' log = length (filter (is_task_call id') log)"

definition listener_calls :: "callback \<Rightarrow> dispatch list \<Rightarrow> nat" where
  "listener_calls cb log = length (filter (is_listener_call cb) log)"

section \<open>pkg/sandbox/local.go\<close>

text \<open>
  The dangerous-command patterns are regular expressions of Go's regexp package. Their
  syntax trees use literals, the classes \<^verbatim>\<open>\s\<close> and \<^verbatim>\<open>.\<close> (single, starred or plussed),
  concatenation, alternation and the end-of-text assertion \<^verbatim>\<open>$\<close>; \<open>rx\<close> is that fragment.
  Strings are byte strings; every literal and \<^verbatim>\<open>\s\<close> is ASCII, and \<^verbatim>\<open>.\<close> only occurs
  starred, where matching runes and matching bytes accept the same texts.
\<close>

datatype cls = Space | Dot

datatype rx =
    Lit string
  | One cls
  | Star cls
  | Plus cls
  | Seq rx rx
  | Alt rx rx
  | EndText

text \<open>\<^verbatim>\<open>\s\<close> is tab, newline, form feed, carriage return and space; \<^verbatim>\<open>.\<close> is any byte
  but newline.\<close>

fun in_cls :: "cls \<Rightarrow> char \<Rightarrow> bool" where
  "in_cls Space c = (of_char c \<in> {9, 10, 12, 13, 32 :: nat})"
| "in_cls Dot c = (of_char c \<noteq> (10 :: nat))"

text \<open>The texts left over after a starred class has consumed a prefix, shortest first.\<close>

fun star_rems :: "cls \<Rightarrow> string \<Rightarrow> string list" where
  "star_rems k [] = [Nil]"
| "star_rems k (c # cs) = (c # cs) # (if in_cls k c then star_rems k cs else [])"

text \<open>
  \<open>rems r s\<close>: every text that can be left over when \<open>r\<close> matches a prefix of \<open>s\<close>; the
  expression matches at the start of \<open>s\<close> when there is one.
\<close>

fun rems :: "rx \<Rightarrow> string \<Rightarrow> string list" where
  "rems (Lit l) s = (if take (length l) s = l then [drop (length l) s] else [])"
| "rems (One k) s = (case s of [] \<Rightarrow> [] | c # cs \<Rightarrow> (if in_cls k c then [cs] else []))"
| "rems (Star k) s = star_rems k s"
| "rems (Plus k) s = (case s of [] \<Rightarrow> [] | c # cs \<Rightarrow> (if in_cls k c then star_rems k cs else []))"
| "rems (Seq a b) s = concat (map (rems b) (rems a s))"
| "rems (Alt a b) s = rems a s @ rems b s"
| "rems EndText s = (if s = [] then [Nil] else [])"

text \<open>\<^verbatim>\<open>pattern.MatchString(cmd)\<close>: the expression matches at some position of the text.\<close>

fun MatchString :: "rx \<Rightarrow> string \<Rightarrow> bool" where
  "MatchString r [] = (rems r [] \<noteq> [])"
| "MatchString r (c # cs) = (rems r (c # cs) \<noteq> [] \<or> MatchString r cs)"

fun seqs :: "rx list \<Rightarrow> rx" where
  "seqs [] = Lit []"
| "seqs [r] = r"
| "seqs (r # rs) = Seq r (seqs rs)"

definition dangerousPatterns :: "rx list" where
  "dangerousPatterns =
     [seqs [Lit ''rm'', Plus Space, Lit ''-rf'', Plus Space, Lit ''/'', Alt EndText (One Space)],
      seqs [Lit ''sudo'', Plus Space],
      Lit ''shutdown'',
      Lit ''reboot'',
      Lit ''mkfs.'',
      seqs [Lit ''dd'', Plus Space, Star Dot, Lit ''of=''],
      seqs [Lit '':(){'', Star Space, Lit '':|:&'', Star Space, Lit ''};:''],
      seqs [Lit ''chmod'', Plus Space, Lit ''777'', Plus Space, Lit ''/''],
      seqs [Lit ''curl'', Plus Space, Star Dot, Lit ''|'', Star Space, Alt (Lit ''bash'') (Lit ''sh'')],
      seqs [Lit ''wget'', Plus Space, Star Dot, Lit ''|'', Star Space, Alt (Lit ''bash'') (Lit ''sh'')],
      seqs [Lit ''>'', Star Space, Lit ''/dev/sda''],
      Lit ''mkswap'',
      Lit ''swapon'']"

definition is_dangerous :: "string \<Rightarrow> bool" where
  "is_dangerous cmd = list_ex (\<lambda>pattern. MatchString pattern cmd) dangerousPatterns"

record ExecResult =
  er_Code :: int
  er_Stdout :: string
  er_Stderr :: string

text \<open>
  The machine behind the sandbox: what \<^verbatim>\<open>sh -c cmd\<close> does when it is run (it ends with
  exit status zero, ends with another status, or cannot be run), and the commands that
  were run, in order.
\<close>

datatype sh_outcome = Succeeded string | Exited int string | NotRun string

record Host =
  sh :: "string \<Rightarrow> sh_outcome"
  commands_run :: "string list"

text \<open>
  The cloud sandboxes hand the command to a remote shell tool. The remote side is what
  that call does with a command (the call fails, its answer cannot be decoded, or it
  answers standard output, standard error and exit code) and the commands handed to it,
  in order.
\<close>

datatype shell_answer = CallFailed string | Undecodable string | ShellResult string string int

record Remote =
  shell_tool :: "string \<Rightarrow> shell_answer"
  commands_sent :: "string list"

definition truncate :: "string \<Rightarrow> nat \<Rightarrow> string" where
  "truncate s maxLen = (if length s \<le> maxLen then s else take maxLen s @ ''...'')"

definition LocalSandbox_Exec :: "string \<Rightarrow> Host \<Rightarrow> (string + ExecResult) \<times> Host" where
  "LocalSandbox_Exec cmd h =
     (if is_dangerous cmd then
        (Inr \<lparr>er_Code = 1, er_Stdout = [],
              er_Stderr = ''Dangerous command blocked for security: '' @ truncate cmd 100\<rparr>, h)
      else
        (let h' = h\<lparr>commands_run := commands_run h @ [cmd]\<rparr>
         in case sh h cmd of
              Exited code output \<Rightarrow>
                (Inr \<lparr>er_Code = code, er_Stdout = output, er_Stderr = output\<rparr>, h')
            | NotRun e \<Rightarrow> (Inr \<lparr>er_Code = 1, er_Stdout = [], er_Stderr = e\<rparr>, h')
            | Succeeded output \<Rightarrow>
                (Inr \<lparr>er_Code = 0, er_Stdout = output, er_Stderr = []\<rparr>, h')))"

section \<open>pkg/tools/builtin: bash\_run\<close>

text \<open>The hint strings of the tool, byte for byte (UTF-8).\<close>

definition hint_check_syntax :: string where
  "hint_check_syntax = map char_of
     [230, 163, 128, 230, 159, 165, 229, 145, 189, 228, 187, 164, 232, 175, 173, 230,
       179, 149, 230, 152, 175, 229, 144, 166, 230, 173, 163, 231, 161, 174 :: nat]"

definition hint_check_executable :: string where
  "hint_check_executable = map char_of
     [231, 161, 174, 232, 174, 164, 229, 145, 189, 228, 187, 164, 229, 156, 168, 230,
       178, 153, 231, 174, 177, 231, 142, 175, 229, 162, 131, 228, 184, 173, 229, 143,
       175, 230, 137, 167, 232, 161, 140 :: nat]"

definition hint_check_permission :: string where
  "hint_check_permission = map char_of
     [233, 170, 140, 232, 175, 129, 230, 152, 175, 229, 144, 166, 230, 156, 137, 230,
       137, 167, 232, 161, 140, 230, 157, 131, 233, 153, 144 :: nat]"

definition hint_check_stderr :: string where
  "hint_check_stderr = map char_of
     [230, 163, 128, 230, 159, 165, 229, 145, 189, 228, 187, 164, 231, 154, 132, 230,
       160, 135, 229, 135, 134, 233, 148, 153, 232, 175, 175, 232, 190, 147, 229, 135,
       186 :: nat]"

definition hint_check_arguments :: string where
  "hint_check_arguments = map char_of
     [233, 170, 140, 232, 175, 129, 229, 145, 189, 228, 187, 164, 229, 143, 130, 230,
       149, 176, 230, 152, 175, 229, 144, 166, 230, 173, 163, 231, 161, 174 :: nat]"

definition hint_check_dependencies :: string where
  "hint_check_dependencies = map char_of
     [231, 161, 174, 232, 174, 164, 230, 137, 128, 233, 156, 128, 231, 154, 132, 228,
       190, 157, 232, 181, 150, 230, 152, 175, 229, 144, 166, 229, 183, 178, 229, 174,
       137, 232, 163, 133 :: nat]"

text \<open>
  \<^verbatim>\<open>BashRunTool.Execute\<close> calls \<^verbatim>\<open>tc.Sandbox.Exec\<close>, the \<^verbatim>\<open>Exec\<close> of whatever
  sandbox the agent has been given. It is modelled over any such \<^verbatim>\<open>Exec\<close> and the
  machine \<open>'h\<close> behind it: the output and the error it returns, and the machine
  afterwards.
\<close>

definition BashRunTool_Execute ::
  "(string \<Rightarrow> 'h \<Rightarrow> (string + ExecResult) \<times> 'h) \<Rightarrow> jmap \<Rightarrow> 'h \<Rightarrow> (json \<times> string option) \<times> 'h" where
  "BashRunTool_Execute sandbox_Exec input h =
     (case map_of input ''cmd'' of
        Some (JStr cmd) \<Rightarrow>
          (case sandbox_Exec cmd h of
             (Inl err, h') \<Rightarrow>
               ((JObj [(''ok'', JBool False),
                       (''error'', JStr (''failed to execute command: '' @ err)),
                       (''recommendations'',
                        JArr [JStr hint_check_syntax, JStr hint_check_executable,
                              JStr hint_check_permission])], None), h')
           | (Inr result, h') \<Rightarrow>
               (let output0 = (if er_Stderr result \<noteq> []
                               then er_Stdout result @ [char_of (10 :: nat)] @ er_Stderr result
                               else er_Stdout result);
                    output = (if output0 = [] then ''(no output)'' else output0);
                    success = (er_Code result = 0);
                    response = [(''ok'', JBool success), (''code'', JNum (er_Code result)),
                                (''output'', JStr output)]
                in ((JObj (if \<not> success then
                             response @
                             [(''error'', JStr (''command exited with code '' @ format_int (er_Code result))),
                              (''recommendations'',
                               JArr [JStr hint_check_stderr, JStr hint_check_arguments,
                                     JStr hint_check_dependencies])]
                           else response), None), h')))
      | _ \<Rightarrow> ((JNull, Some ''cmd must be a string''), h))"

section \<open>The other sandboxes\<close>

text \<open>
  \<^verbatim>\<open>MockSandbox.Exec\<close> (the sandbox the factory builds for the kind \<^verbatim>\<open>mock\<close>): it runs
  nothing and answers exit code 0 with a fixed text. There is no machine behind it.
\<close>

definition MockSandbox_Exec :: "string \<Rightarrow> unit \<Rightarrow> (string + ExecResult) \<times> unit" where
  "MockSandbox_Exec cmd h =
     (Inr \<lparr>er_Code = 0, er_Stdout = ''Mock output for: '' @ cmd, er_Stderr = []\<rparr>, h)"

text \<open>
  \<^verbatim>\<open>AliyunSandbox.Exec\<close> hands the command to the remote shell tool and returns what
  it answers. \<^verbatim>\<open>VolcengineSandbox.Exec\<close> is the same with another tool name.
\<close>

definition AliyunSandbox_Exec :: "string \<Rightarrow> Remote \<Rightarrow> (string + ExecResult) \<times> Remote" where
  "AliyunSandbox_Exec cmd h =
     (let h' = h\<lparr>commands_sent := commands_sent h @ [cmd]\<rparr>
      in case shell_tool h cmd of
           CallFailed e \<Rightarrow> (Inl (''exec shell: '' @ e), h')
         | Undecodable e \<Rightarrow> (Inl (''parse shell result: '' @ e), h')
         | ShellResult out err code \<Rightarrow>
             (Inr \<lparr>er_Code = code, er_Stdout = out, er_Stderr = err\<rparr>, h'))"

section \<open>Observations on tool-call records\<close>

text \<open>
  Every write of a record's state goes with one audit entry, so the states a record has
  been in, in order, are the states of its audit trail, and the transitions it has made
  are the adjacent pairs.
\<close>

definition state_trail :: "ToolCallRecord \<Rightarrow> ToolCallState list" where
  "state_trail r = map audit_State (rec_AuditTrail r)"

definition transitions :: "ToolCallRecord \<Rightarrow> (ToolCallState \<times> ToolCallState) list" where
  "transitions r = zip (state_trail r) (tl (state_trail r))"

text \<open>The legal edges and the terminal states as the specification lists them.\<close>

fun spec_terminal :: "ToolCallState \<Rightarrow> bool" where
  "spec_terminal ToolCallStateCompleted = True"
| "spec_terminal ToolCallStateFailed = True"
| "spec_terminal ToolCallStateDenied = True"
| "spec_terminal ToolCallStateSealed = True"
| "spec_terminal _ = False"

fun spec_legal_edge :: "ToolCallState \<Rightarrow> ToolCallState \<Rightarrow> bool" where
  "spec_legal_edge ToolCallStatePending t =
     (t \<in> {ToolCallStateApprovalRequired, ToolCallStateApproved, ToolCallStateFailed,
            ToolCallStateDenied, ToolCallStateSealed})"
| "spec_legal_edge ToolCallStateApprovalRequired t =
     (t \<in> {ToolCallStateApproved, ToolCallStateDenied, ToolCallStateFailed,
            ToolCallStateSealed})"
| "spec_legal_edge ToolCallStateApproved t =
     (t \<in> {ToolCallStateExecuting, ToolCallStateFailed, ToolCallStateSealed})"
| "spec_legal_edge ToolCallStateExecuting t =
     (t \<in> {ToolCallStateCompleted, ToolCallStateFailed, ToolCallStateSealed})"
| "spec_legal_edge _ t = False"

section \<open>Chunks as the provider builds them\<close>

text \<open>
  The chunks \<^verbatim>\<open>parseStreamEvent\<close> builds for the start of a tool-use block, the start of
  a text block, a partial-JSON delta, a text delta and the end of a block.
\<close>

definition tool_use_start :: "int \<Rightarrow> string \<Rightarrow> string \<Rightarrow> StreamChunk" where
  "tool_use_start i id' name =
     \<lparr>chunk_Type = ''content_block_start'', chunk_Index = i,
      chunk_Delta = Some [(''type'', JStr ''tool_use''), (''id'', JStr id'), (''name'', JStr name)],
      chunk_Usage = None\<rparr>"

definition text_start :: "int \<Rightarrow> StreamChunk" where
  "text_start i =
     \<lparr>chunk_Type = ''content_block_start'', chunk_Index = i,
      chunk_Delta = Some [(''type'', JStr ''text''), (''text'', JStr [])],
      chunk_Usage = None\<rparr>"

definition input_json_delta :: "int \<Rightarrow> string \<Rightarrow> StreamChunk" where
  "input_json_delta i partialJSON =
     \<lparr>chunk_Type = ''content_block_delta'', chunk_Index = i,
      chunk_Delta = Some [(''type'', JStr ''input_json_delta''), (''partial_json'', JStr partialJSON)],
      chunk_Usage = None\<rparr>"

definition text_delta :: "int \<Rightarrow> string \<Rightarrow> StreamChunk" where
  "text_delta i text =
     \<lparr>chunk_Type = ''content_block_delta'', chunk_Index = i,
      chunk_Delta = Some [(''type'', JStr ''text_delta''), (''text'', JStr text)],
      chunk_Usage = None\<rparr>"

definition block_stop :: "int \<Rightarrow> StreamChunk" where
  "block_stop i =
     \<lparr>chunk_Type = ''content_block_stop'', chunk_Index = i, chunk_Delta = None,
      chunk_Usage = None\<rparr>"

section \<open>Scenarios\<close>

text \<open>
  Scenario S2 of the specification: an agent whose tool set holds \<open>bash_run\<close> (the builtin
  tool over a local sandbox on a host where every command prints a file name), a
  permission manager whose deny list holds \<open>bash_run\<close>, and the model's tool use
  \<open>bash_run {cmd: "ls"}\<close>.
\<close>

definition S2_host :: Host where
  "S2_host = \<lparr>sh = (\<lambda>cmd. Succeeded ''a.txt''), commands_run = []\<rparr>"

definition S2_bash_run :: Tool where
  "S2_bash_run =
     \<lparr>tool_Name = ''bash_run'',
      tool_Execute = (\<lambda>input. fst (BashRunTool_Execute LocalSandbox_Exec input S2_host))\<rparr>"

definition S2_agent :: Agent where
  "S2_agent =
     \<lparr>agent_id = ''agt:1'', systemPrompt = [], toolMap = [''bash_run'' \<mapsto> S2_bash_run],
      state = AgentStateReady, breakpoint = BreakpointReady, messages = [],
      toolRecords = Map.empty, stepCount = 0, eventBus = [], executor_calls = []\<rparr>"

definition S2_permissions :: PermissionManager where
  "S2_permissions =
     NewPermissionManager (Some \<lparr>opt_DefaultMode = PermissionModeAuto, opt_AllowList = [],
                                 opt_DenyList = [''bash_run''], opt_AskList = []\<rparr>)"

definition S2_tool_use :: ToolUse where
  "S2_tool_use = \<lparr>tu_ID = ''toolu_1'', tu_Name = ''bash_run'', tu_Input = [(''cmd'', JStr ''ls'')]\<rparr>"

text \<open>
  The collaborators of the scenarios: a store that never fails, a live context, and a
  JSON decoder that is only ever asked about the empty object and about texts that are
  not JSON.
\<close>

definition S_env :: Env where
  "S_env =
     \<lparr>Store_SaveMessages = (\<lambda>agentID ms. None),
      Store_SaveToolCallRecords = (\<lambda>agentID rs. None),
      unmarshal = (\<lambda>s. if s = ''{}'' then Some [] else None),
      ctx = None,
      select_semaphore = False\<rparr>"

text \<open>A model answer that is one text block saying \<open>hi\<close>.\<close>

definition S_text_reply :: "StreamChunk list" where
  "S_text_reply = [text_start 0, text_delta 0 ''hi'', block_stop 0]"

text \<open>
  Two sets of dependencies for a pool: one whose template registry knows the template
  \<open>assistant\<close>, one whose registry knows no template. Both have a provider factory, a
  sandbox factory and a store that never fail, and a tool registry that knows \<open>bash_run\<close>.
\<close>

definition S_template :: AgentTemplateDefinition where
  "S_template =
     \<lparr>tpl_ID = ''assistant'', tpl_SystemPrompt = ''You are helpful.'',
      tpl_Model = ''model-1'', tpl_Tools = ToolNames [''bash_run'']\<rparr>"

definition S_deps :: Dependencies where
  "S_deps =
     \<lparr>TemplateRegistry_Get =
        (\<lambda>templateID. if templateID = ''assistant'' then Inr S_template
                       else Inl (''template not found: '' @ templateID)),
      ProviderFactory_Create = (\<lambda>mc. None),
      SandboxFactory_Create = (\<lambda>sc. None),
      ToolRegistry_Create =
        (\<lambda>name. if name = ''bash_run'' then Inr S2_bash_run
                 else Inl (''tool not registered: '' @ name)),
      ToolRegistry_List = [''bash_run''],
      Store_LoadMessages = (\<lambda>agentID. Inr []),
      Store_LoadToolCallRecords = (\<lambda>agentID. Inr []),
      Store_SaveInfo = (\<lambda>agentID info. None)\<rparr>"

definition S_deps_no_template :: Dependencies where
  "S_deps_no_template =
     S_deps\<lparr>TemplateRegistry_Get := (\<lambda>templateID. Inl (''template not found: '' @ templateID))\<rparr>"

definition S_config :: AgentConfig where
  "S_config =
     \<lparr>cfg_AgentID = ''agent-1'', cfg_TemplateID = ''assistant'', cfg_ModelConfig = None,
      cfg_Sandbox = None, cfg_Tools = None\<rparr>"

text \<open>The same configuration without an agent id.\<close>

definition S_config_no_id :: AgentConfig where
  "S_config_no_id = S_config\<lparr>cfg_AgentID := []\<rparr>"

text \<open>
  Scenario S6 of the specification, on two agents: a pool in which \<open>agent-1\<close> and
  \<open>agent-2\<close> have been created, a room that \<open>alice\<close> (agent-1) and \<open>bob\<close> (agent-2) have
  joined, and the same pool after \<open>agent-2\<close> has been removed from it.
\<close>

definition S6_pool :: Pool where
  "S6_pool =
     fst (snd (Pool_Create
       (fst (snd (Pool_Create (NewPool \<lparr>popt_Dependencies = S_deps, popt_MaxAgents = 0\<rparr>)
                    S_config ''0001'')))
       (S_config\<lparr>cfg_AgentID := ''agent-2''\<rparr>) ''0002''))"

definition S6_room :: Room where
  "S6_room = snd (Join (snd (Join NewRoom S6_pool ''alice'' ''agent-1'')) S6_pool ''bob'' ''agent-2'')"

definition S6_pool_after_remove :: Pool where
  "S6_pool_after_remove = snd (Pool_Remove (\<lambda>ag. None) S6_pool ''agent-2'')"

text \<open>
  A scheduler on which a listener \<open>A\<close> is registered, the scheduler is cleared, a listener
  \<open>B\<close> is registered, and the cancel function of \<open>A\<close> is called.
\<close>

definition S_with_A :: "cancel_handle \<times> Scheduler" where
  "S_with_A = OnStep (NewScheduler False) ''A''"

definition S_with_B :: "cancel_handle \<times> Scheduler" where
  "S_with_B = OnStep (Clear (snd S_with_A)) ''B''"

definition S_after_cancel_A :: "cancel_handle \<times> Scheduler" where
  "S_after_cancel_A = cancel_listener (snd S_with_B) (fst S_with_A)"

text \<open>A remote shell that runs what it is handed and answers exit code 0.\<close>

definition S_remote :: Remote where
  "S_remote = \<lparr>shell_tool = (\<lambda>cmd. ShellResult ''done'' [] 0), commands_sent = []\<rparr>"

section \<open>Properties of the permission manager\<close>


lemma Check_decision_deny:
  "lookupB (denyList pm) (rec_Name call) \<Longrightarrow> fst (fst (Check pm call)) = PermissionDeny"
  by (simp add: Check_def Let_def)



lemma memberships_initial:
  "list_memberships \<lparr>defaultMode = m, rules = r, allowList = Map.empty, denyList = Map.empty,
                     askList = Map.empty, stats = s\<rparr> t = 0"
  by (simp add: list_memberships_def IsInAllowList_def IsInDenyList_def IsInAskList_def
      lookupB_def)

lemma apply_list_op_memberships:
  "list_memberships pm t \<le> 1 \<Longrightarrow> list_memberships (apply_list_op pm x) t \<le> 1"
  by (cases x)
     (auto simp: list_memberships_def IsInAllowList_def IsInDenyList_def IsInAskList_def
       lookupB_def AddToAllowList_def AddToDenyList_def AddToAskList_def RemoveFromLists_def
       split: if_splits)

lemma apply_list_ops_memberships:
  "list_memberships pm t \<le> 1 \<Longrightarrow> list_memberships (apply_list_ops pm ops) t \<le> 1"
  unfolding apply_list_ops_def
proof (induction ops arbitrary: pm)
  case Nil
  then show ?case by simp
next
  case (Cons x ops)
  from Cons.prems have "list_memberships (apply_list_op pm x) t \<le> 1"
    by (rule apply_list_op_memberships)
  then have "list_memberships (foldl apply_list_op (apply_list_op pm x) ops) t \<le> 1"
    by (rule Cons.IH)
  then show ?case by simp
qed

lemma AddTo_effects:
  "IsInAllowList (AddToAllowList pm t) t" "\<not> IsInDenyList (AddToAllowList pm t) t"
  "\<not> IsInAskList (AddToAllowList pm t) t"
  "IsInDenyList (AddToDenyList pm t) t" "\<not> IsInAllowList (AddToDenyList pm t) t"
  "\<not> IsInAskList (AddToDenyList pm t) t"
  "IsInAskList (AddToAskList pm t) t" "\<not> IsInAllowList (AddToAskList pm t) t"
  "\<not> IsInDenyList (AddToAskList pm t) t"
  "\<not> IsInAllowList (RemoveFromLists pm t) t" "\<not> IsInDenyList (RemoveFromLists pm t) t"
  "\<not> IsInAskList (RemoveFromLists pm t) t"
  by (simp_all add: IsInAllowList_def IsInDenyList_def IsInAskList_def lookupB_def
      AddToAllowList_def AddToDenyList_def AddToAskList_def RemoveFromLists_def)

lemma list_op_frame:
  "u \<noteq> t \<Longrightarrow>
     IsInAllowList (apply_list_op pm (OpAddToAllowList t)) u = IsInAllowList pm u
   \<and> IsInDenyList (apply_list_op pm (OpAddToAllowList t)) u = IsInDenyList pm u
   \<and> IsInAskList (apply_list_op pm (OpAddToAllowList t)) u = IsInAskList pm u
   \<and> IsInAllowList (apply_list_op pm (OpAddToDenyList t)) u = IsInAllowList pm u
   \<and> IsInDenyList (apply_list_op pm (OpAddToDenyList t)) u = IsInDenyList pm u
   \<and> IsInAskList (apply_list_op pm (OpAddToDenyList t)) u = IsInAskList pm u
   \<and> IsInAllowList (apply_list_op pm (OpAddToAskList t)) u = IsInAllowList pm u
   \<and> IsInDenyList (apply_list_op pm (OpAddToAskList t)) u = IsInDenyList pm u
   \<and> IsInAskList (apply_list_op pm (OpAddToAskList t)) u = IsInAskList pm u
   \<and> IsInAllowList (apply_list_op pm (OpRemoveFromLists t)) u = IsInAllowList pm u
   \<and> IsInDenyList (apply_list_op pm (OpRemoveFromLists t)) u = IsInDenyList pm u
   \<and> IsInAskList (apply_list_op pm (OpRemoveFromLists t)) u = IsInAskList pm u"
  by (simp add: IsInAllowList_def IsInDenyList_def IsInAskList_def lookupB_def
      AddToAllowList_def AddToDenyList_def AddToAskList_def RemoveFromLists_def)

text \<open>
  C10. A manager built with empty allow, deny and ask lists (from no options at all, or
  from options whose three lists are empty) keeps every tool name in at most one of the
  three lists through any sequence of \<open>AddToAllowList\<close>, \<open>AddToDenyList\<close>,
  \<open>AddToAskList\<close> and \<open>RemoveFromLists\<close>, so at every point of such a sequence. On any
  manager, each of the three add operations puts the name on its own list and leaves it
  on neither of the other two, \<open>RemoveFromLists\<close> leaves it on none, and every operation
  leaves the memberships of every other name as they were.
\<close>

theorem lists_mutually_exclusive:
  assumes "case opts of None \<Rightarrow> True
           | Some o' \<Rightarrow> opt_AllowList o' = [] \<and> opt_DenyList o' = [] \<and> opt_AskList o' = []"
  shows "list_memberships (apply_list_ops (NewPermissionManager opts) ops) t \<le> 1
   \<and> IsInAllowList (AddToAllowList pm n) n
   \<and> \<not> IsInDenyList (AddToAllowList pm n) n \<and> \<not> IsInAskList (AddToAllowList pm n) n
   \<and> IsInDenyList (AddToDenyList pm n) n
   \<and> \<not> IsInAllowList (AddToDenyList pm n) n \<and> \<not> IsInAskList (AddToDenyList pm n) n
   \<and> IsInAskList (AddToAskList pm n) n
   \<and> \<not> IsInAllowList (AddToAskList pm n) n \<and> \<not> IsInDenyList (AddToAskList pm n) n
   \<and> \<not> IsInAllowList (RemoveFromLists pm n) n \<and> \<not> IsInDenyList (RemoveFromLists pm n) n
   \<and> \<not> IsInAskList (RemoveFromLists pm n) n
   \<and> (u \<noteq> n \<longrightarrow>
         (\<forall>x \<in> {OpAddToAllowList n, OpAddToDenyList n, OpAddToAskList n, OpRemoveFromLists n}.
            IsInAllowList (apply_list_op pm x) u = IsInAllowList pm u
            \<and> IsInDenyList (apply_list_op pm x) u = IsInDenyList pm u
            \<and> IsInAskList (apply_list_op pm x) u = IsInAskList pm u))"
proof -
  have "list_memberships (NewPermissionManager opts) t = 0"
    using assms
    by (cases opts) (simp_all add: NewPermissionManager_def memberships_initial)
  then have "list_memberships (NewPermissionManager opts) t \<le> 1"
    by simp
  then have m: "list_memberships (apply_list_ops (NewPermissionManager opts) ops) t \<le> 1"
    by (rule apply_list_ops_memberships)
  have f: "u \<noteq> n \<longrightarrow>
         (\<forall>x \<in> {OpAddToAllowList n, OpAddToDenyList n, OpAddToAskList n, OpRemoveFromLists n}.
            IsInAllowList (apply_list_op pm x) u = IsInAllowList pm u
            \<and> IsInDenyList (apply_list_op pm x) u = IsInDenyList pm u
            \<and> IsInAskList (apply_list_op pm x) u = IsInAskList pm u)"
    using list_op_frame [of u n pm] by blast
  show ?thesis
    using m f AddTo_effects [of pm n] by blast
qed

theorem lists_mutually_exclusive_witness:
  "(case Some \<lparr>opt_DefaultMode = PermissionModeAuto, opt_AllowList = [], opt_DenyList = [],
               opt_AskList = []\<rparr> of None \<Rightarrow> True
    | Some o' \<Rightarrow> opt_AllowList o' = [] \<and> opt_DenyList o' = [] \<and> opt_AskList o' = [])
   \<and> ''fs_read'' \<noteq> ''bash_run''
   \<and> list_memberships (apply_list_ops (NewPermissionManager
        (Some \<lparr>opt_DefaultMode = PermissionModeAuto, opt_AllowList = [], opt_DenyList = [],
               opt_AskList = []\<rparr>))
        [OpAddToAllowList ''bash_run'', OpAddToDenyList ''bash_run'', OpAddToAskList ''fs_read''])
        ''bash_run'' \<le> 1
   \<and> IsInDenyList (apply_list_ops (NewPermissionManager
        (Some \<lparr>opt_DefaultMode = PermissionModeAuto, opt_AllowList = [], opt_DenyList = [],
               opt_AskList = []\<rparr>))
        [OpAddToAllowList ''bash_run'', OpAddToDenyList ''bash_run'', OpAddToAskList ''fs_read''])
        ''bash_run''
   \<and> \<not> IsInDenyList (AddToAllowList S2_permissions ''bash_run'') ''bash_run''
   \<and> IsInAllowList (AddToAllowList S2_permissions ''bash_run'') ''bash_run''
   \<and> IsInDenyList (apply_list_op S2_permissions (OpAddToAllowList ''fs_read'')) ''bash_run''"
proof -
  have h: "case Some \<lparr>opt_DefaultMode = PermissionModeAuto, opt_AllowList = [], opt_DenyList = [],
               opt_AskList = []\<rparr> of None \<Rightarrow> True
    | Some o' \<Rightarrow> opt_AllowList o' = [] \<and> opt_DenyList o' = [] \<and> opt_AskList o' = []"
    by simp
  have d: "IsInDenyList S2_permissions ''bash_run''"
    by (simp add: S2_permissions_def NewPermissionManager_def IsInDenyList_def lookupB_def)
  have e: "IsInDenyList (apply_list_ops (NewPermissionManager
        (Some \<lparr>opt_DefaultMode = PermissionModeAuto, opt_AllowList = [], opt_DenyList = [],
               opt_AskList = []\<rparr>))
        [OpAddToAllowList ''bash_run'', OpAddToDenyList ''bash_run'', OpAddToAskList ''fs_read''])
        ''bash_run''"
    by (simp add: apply_list_ops_def NewPermissionManager_def AddToAllowList_def
        AddToDenyList_def AddToAskList_def IsInDenyList_def lookupB_def)
  have n: "''bash_run'' \<noteq> ''fs_read''" "''fs_read'' \<noteq> ''bash_run''"
    by simp_all
  note a = lists_mutually_exclusive [OF h,
      of "[OpAddToAllowList ''bash_run'', OpAddToDenyList ''bash_run'', OpAddToAskList ''fs_read'']"
         "''bash_run''" S2_permissions "''bash_run''" "''fs_read''"]
  note b = lists_mutually_exclusive [OF h, of "[]" "''bash_run''" S2_permissions "''fs_read''"
      "''bash_run''"]
  have "IsInDenyList (apply_list_op S2_permissions (OpAddToAllowList ''fs_read'')) ''bash_run''"
    using b n d by simp
  then show ?thesis
    using a e n by simp
qed

section \<open>Properties of the engine's tool execution\<close>

lemma emit_simps [simp]:
  "toolRecords (emit a e) = toolRecords a" "toolMap (emit a e) = toolMap a"
  "messages (emit a e) = messages a" "stepCount (emit a e) = stepCount a"
  "executor_calls (emit a e) = executor_calls a" "agent_id (emit a e) = agent_id a"
  "state (emit a e) = state a" "breakpoint (emit a e) = breakpoint a"
  "eventBus (emit a e) = eventBus a @ [e]"
  by (simp_all add: emit_def)

lemma setBreakpoint_simps [simp]:
  "toolRecords (setBreakpoint a s) = toolRecords a" "toolMap (setBreakpoint a s) = toolMap a"
  "messages (setBreakpoint a s) = messages a" "stepCount (setBreakpoint a s) = stepCount a"
  "executor_calls (setBreakpoint a s) = executor_calls a"
  "agent_id (setBreakpoint a s) = agent_id a" "state (setBreakpoint a s) = state a"
  "breakpoint (setBreakpoint a s) = s"
  by (simp_all add: setBreakpoint_def)

lemma updateToolRecord_simps [simp]:
  "toolMap (updateToolRecord a i s m) = toolMap a"
  "messages (updateToolRecord a i s m) = messages a"
  "stepCount (updateToolRecord a i s m) = stepCount a"
  "executor_calls (updateToolRecord a i s m) = executor_calls a"
  "agent_id (updateToolRecord a i s m) = agent_id a"
  "state (updateToolRecord a i s m) = state a"
  "breakpoint (updateToolRecord a i s m) = breakpoint a"
  "eventBus (updateToolRecord a i s m) = eventBus a"
  by (simp_all add: updateToolRecord_def Let_def split: option.splits)

lemma updateToolRecord_records:
  "toolRecords a i = Some r \<Longrightarrow>
   toolRecords (updateToolRecord a i s m) =
     (toolRecords a)(i \<mapsto>
        (if m \<noteq> [] then r\<lparr>rec_State := s, rec_Error := m, rec_IsError := True\<rparr>
         else r\<lparr>rec_State := s\<rparr>)
        \<lparr>rec_AuditTrail := rec_AuditTrail r @ [\<lparr>audit_State = s, audit_Note = []\<rparr>]\<rparr>)"
  by (simp add: updateToolRecord_def Let_def)

lemma executeSingleTool_missing:
  assumes "toolMap a (tu_Name tu) = None"
  shows "fst (executeSingleTool env a tu) =
           ToolResultBlock \<lparr>tr_ToolUseID = tu_ID tu,
             tr_Content = error_content (''tool not found: '' @ tu_Name tu), tr_IsError = True\<rparr>"
    and "executor_calls (snd (executeSingleTool env a tu)) = executor_calls a"
    and "\<exists>r. toolRecords (snd (executeSingleTool env a tu)) = (toolRecords a)(tu_ID tu \<mapsto> r)
           \<and> state_trail r = [ToolCallStatePending, ToolCallStateFailed]
           \<and> rec_State r = ToolCallStateFailed"
  using assms
  by (auto simp: executeSingleTool_def Let_def updateToolRecord_records NewToolCallRecord_def
      state_trail_def intro!: exI)

lemma executeSingleTool_found:
  assumes "toolMap a (tu_Name tu) = Some tool"
  shows "executor_calls (snd (executeSingleTool env a tu)) =
           executor_calls a @ [(tool_Name tool, tu_Input tu)]"
    and "\<exists>r. toolRecords (snd (executeSingleTool env a tu)) = (toolRecords a)(tu_ID tu \<mapsto> r)
           \<and> state_trail r = [ToolCallStatePending, ToolCallStateExecuting, rec_State r]
           \<and> rec_State r = (if res_Success (Executor_Execute (ctx env) (select_semaphore env)
                  \<lparr>req_Tool = tool, req_Input = tu_Input tu\<rparr>) then ToolCallStateCompleted else ToolCallStateFailed)"
    and "fst (executeSingleTool env a tu) =
          (let res = Executor_Execute (ctx env) (select_semaphore env) \<lparr>req_Tool = tool, req_Input = tu_Input tu\<rparr>
           in if res_Success res
              then ToolResultBlock \<lparr>tr_ToolUseID = tu_ID tu, tr_Content = res_Output res, tr_IsError = False\<rparr>
              else ToolResultBlock \<lparr>tr_ToolUseID = tu_ID tu,
                     tr_Content = error_content (case res_Error res of None \<Rightarrow> [] | Some e \<Rightarrow> e),
                     tr_IsError = True\<rparr>)"
  using assms
  by (auto simp: executeSingleTool_def Let_def updateToolRecord_records NewToolCallRecord_def
      state_trail_def intro!: exI)

lemma not_dangerous_ls: "\<not> is_dangerous ''ls''"
  by code_simp

lemma S2_bash_run_ls:
  "tool_Execute S2_bash_run [(''cmd'', JStr ''ls'')] =
     (JObj [(''ok'', JBool True), (''code'', JNum 0), (''output'', JStr ''a.txt'')], None)"
  by (simp add: S2_bash_run_def BashRunTool_Execute_def LocalSandbox_Exec_def not_dangerous_ls
      S2_host_def)

lemma S2_bash_run_name: "tool_Name S2_bash_run = ''bash_run''"
  by (simp add: S2_bash_run_def)

lemma S2_run:
  "fst (executeSingleTool S_env S2_agent S2_tool_use) =
     ToolResultBlock \<lparr>tr_ToolUseID = ''toolu_1'',
       tr_Content = JObj [(''ok'', JBool True), (''code'', JNum 0), (''output'', JStr ''a.txt'')],
       tr_IsError = False\<rparr>"
  "executor_calls (snd (executeSingleTool S_env S2_agent S2_tool_use)) =
     [(''bash_run'', [(''cmd'', JStr ''ls'')])]"
  "toolRecords (snd (executeSingleTool S_env S2_agent S2_tool_use)) ''toolu_1'' =
     Some \<lparr>rec_ID = ''toolu_1'', rec_Name = ''bash_run'', rec_Input = [(''cmd'', JStr ''ls'')],
           rec_State = ToolCallStateCompleted, rec_ApprovalRequired = False,
           rec_Result = Some (JObj [(''ok'', JBool True), (''code'', JNum 0),
                                    (''output'', JStr ''a.txt'')]),
           rec_Error = [], rec_IsError = False,
           rec_AuditTrail = [\<lparr>audit_State = ToolCallStatePending, audit_Note = ''created''\<rparr>,
                             \<lparr>audit_State = ToolCallStateExecuting, audit_Note = []\<rparr>,
                             \<lparr>audit_State = ToolCallStateCompleted, audit_Note = []\<rparr>]\<rparr>"
  by (simp_all add: executeSingleTool_def Let_def S2_agent_def S2_tool_use_def S_env_def
      Executor_Execute_def run_tool_def S2_bash_run_ls S2_bash_run_name updateToolRecord_records
      NewToolCallRecord_def updateToolRecord_def)

lemma S2_ids: "tu_ID S2_tool_use = ''toolu_1''" "tu_Name S2_tool_use = ''bash_run''"
  by (simp_all add: S2_tool_use_def)

lemma S2_denied: "IsInDenyList S2_permissions ''bash_run''"
  by (simp add: S2_permissions_def NewPermissionManager_def IsInDenyList_def lookupB_def)

text \<open>
  C1, as the code has it. \<open>Check\<close> answers deny, with the reason "tool is in deny list",
  for a call whose tool name is on the deny list. The engine's \<open>executeSingleTool\<close> takes
  no permission manager and asks none: a tool use that names a tool of the agent's tool
  set is handed to the executor once and its record goes from pending through executing
  to completed or failed; a tool use that names no tool of the tool set is not handed to
  the executor, its record goes from pending to failed and its result is the tool-not-found
  error.
\<close>

theorem deny_listed_tool_use:
  assumes "IsInDenyList pm (tu_Name tu)"
  shows "fst (Check pm (NewToolCallRecord (tu_ID tu) (tu_Name tu) (tu_Input tu)))
           = (PermissionDeny, ''tool is in deny list'')
         \<and> (case toolMap a (tu_Name tu) of
               Some tool \<Rightarrow>
                 executor_calls (snd (executeSingleTool env a tu)) =
                   executor_calls a @ [(tool_Name tool, tu_Input tu)]
                 \<and> (\<exists>r. toolRecords (snd (executeSingleTool env a tu)) (tu_ID tu) = Some r
                        \<and> state_trail r =
                            [ToolCallStatePending, ToolCallStateExecuting, rec_State r]
                        \<and> rec_State r \<in> {ToolCallStateCompleted, ToolCallStateFailed})
             | None \<Rightarrow>
                 executor_calls (snd (executeSingleTool env a tu)) = executor_calls a
                 \<and> fst (executeSingleTool env a tu) =
                     ToolResultBlock \<lparr>tr_ToolUseID = tu_ID tu,
                       tr_Content = error_content (''tool not found: '' @ tu_Name tu),
                       tr_IsError = True\<rparr>
                 \<and> (\<exists>r. toolRecords (snd (executeSingleTool env a tu)) (tu_ID tu) = Some r
                        \<and> state_trail r = [ToolCallStatePending, ToolCallStateFailed]))"
proof -
  have c: "fst (Check pm (NewToolCallRecord (tu_ID tu) (tu_Name tu) (tu_Input tu)))
           = (PermissionDeny, ''tool is in deny list'')"
    using assms by (simp add: Check_def Let_def IsInDenyList_def NewToolCallRecord_def)
  show ?thesis
  proof (cases "toolMap a (tu_Name tu)")
    case None
    from executeSingleTool_missing(3) [OF None, of env]
    obtain r where "toolRecords (snd (executeSingleTool env a tu)) = (toolRecords a)(tu_ID tu \<mapsto> r)"
      and "state_trail r = [ToolCallStatePending, ToolCallStateFailed]"
      by blast
    then have "\<exists>r. toolRecords (snd (executeSingleTool env a tu)) (tu_ID tu) = Some r
                  \<and> state_trail r = [ToolCallStatePending, ToolCallStateFailed]"
      by simp
    with c None executeSingleTool_missing(1,2) [OF None, of env] show ?thesis
      by simp
  next
    case (Some tool)
    from executeSingleTool_found(2) [OF Some, of env]
    obtain r where r: "toolRecords (snd (executeSingleTool env a tu)) = (toolRecords a)(tu_ID tu \<mapsto> r)"
      "state_trail r = [ToolCallStatePending, ToolCallStateExecuting, rec_State r]"
      "rec_State r \<in> {ToolCallStateCompleted, ToolCallStateFailed}"
      by (auto split: if_splits)
    then have "\<exists>r. toolRecords (snd (executeSingleTool env a tu)) (tu_ID tu) = Some r
                  \<and> state_trail r = [ToolCallStatePending, ToolCallStateExecuting, rec_State r]
                  \<and> rec_State r \<in> {ToolCallStateCompleted, ToolCallStateFailed}"
      by simp
    with c Some executeSingleTool_found(1) [OF Some, of env] show ?thesis
      by simp
  qed
qed

theorem deny_listed_tool_use_witness:
  "IsInDenyList S2_permissions (tu_Name S2_tool_use)
   \<and> fst (Check S2_permissions
            (NewToolCallRecord (tu_ID S2_tool_use) (tu_Name S2_tool_use) (tu_Input S2_tool_use)))
       = (''deny'', ''tool is in deny list'')
   \<and> executor_calls (snd (executeSingleTool S_env S2_agent S2_tool_use)) =
       [(''bash_run'', [(''cmd'', JStr ''ls'')])]"
proof -
  have d: "IsInDenyList S2_permissions (tu_Name S2_tool_use)"
    using S2_denied by (simp add: S2_ids)
  have t: "toolMap S2_agent (tu_Name S2_tool_use) = Some S2_bash_run"
    by (simp add: S2_agent_def S2_ids)
  have e: "executor_calls S2_agent = []" "tu_Input S2_tool_use = [(''cmd'', JStr ''ls'')]"
    by (simp_all add: S2_agent_def S2_tool_use_def)
  note n = S2_bash_run_name
  show ?thesis
    using d deny_listed_tool_use [OF d, where a = S2_agent and env = S_env] t e n
    by (simp add: PermissionDeny_def)
qed

text \<open>
  The claim C1 fails on scenario S2: with \<open>bash_run\<close> on the deny list, the engine hands
  the tool use to the executor, the record ends completed and the result is the tool's
  output.
\<close>

theorem deny_list_ignored_counterexample:
  "IsInDenyList S2_permissions (tu_Name S2_tool_use)
   \<and> executor_calls (snd (executeSingleTool S_env S2_agent S2_tool_use)) =
       [(''bash_run'', [(''cmd'', JStr ''ls'')])]
   \<and> map_option rec_State
       (toolRecords (snd (executeSingleTool S_env S2_agent S2_tool_use)) (tu_ID S2_tool_use))
       = Some ToolCallStateCompleted
   \<and> fst (executeSingleTool S_env S2_agent S2_tool_use) =
       ToolResultBlock \<lparr>tr_ToolUseID = ''toolu_1'',
         tr_Content = JObj [(''ok'', JBool True), (''code'', JNum 0), (''output'', JStr ''a.txt'')],
         tr_IsError = False\<rparr>
   \<and> fst (executeSingleTool S_env S2_agent S2_tool_use) \<noteq>
       ToolResultBlock \<lparr>tr_ToolUseID = ''toolu_1'',
         tr_Content = error_content ''tool is in deny list'', tr_IsError = True\<rparr>"
  using S2_denied by (simp add: S2_run S2_ids error_content_def)

text \<open>
  C2, as the code has it. The record that \<open>executeSingleTool\<close> creates for a tool use
  starts pending and makes one of three runs of transitions: pending to failed; pending to
  executing to completed; pending to executing to failed. Its state is the last state of
  the run, no transition leaves a terminal state, and the states approval-required,
  approved, denied and sealed are not entered. No other record of the agent is touched.
\<close>

theorem engine_transitions:
  "\<exists>r. toolRecords (snd (executeSingleTool env a tu)) = (toolRecords a)(tu_ID tu \<mapsto> r)
       \<and> rec_State r = last (state_trail r)
       \<and> state_trail r \<in>
           {[ToolCallStatePending, ToolCallStateFailed],
            [ToolCallStatePending, ToolCallStateExecuting, ToolCallStateCompleted],
            [ToolCallStatePending, ToolCallStateExecuting, ToolCallStateFailed]}
       \<and> transitions r \<in>
           {[(ToolCallStatePending, ToolCallStateFailed)],
            [(ToolCallStatePending, ToolCallStateExecuting),
             (ToolCallStateExecuting, ToolCallStateCompleted)],
            [(ToolCallStatePending, ToolCallStateExecuting),
             (ToolCallStateExecuting, ToolCallStateFailed)]}
       \<and> (\<forall>(s, t) \<in> set (transitions r).
             \<not> spec_terminal s
             \<and> t \<notin> {ToolCallStateApprovalRequired, ToolCallStateApproved,
                      ToolCallStateDenied, ToolCallStateSealed})"
proof (cases "toolMap a (tu_Name tu)")
  case None
  from executeSingleTool_missing(3) [OF None, of env] show ?thesis
    by (auto simp: transitions_def)
next
  case (Some tool)
  from executeSingleTool_found(2) [OF Some, of env]
  obtain r where r: "toolRecords (snd (executeSingleTool env a tu)) = (toolRecords a)(tu_ID tu \<mapsto> r)"
    "state_trail r = [ToolCallStatePending, ToolCallStateExecuting, rec_State r]"
    "rec_State r \<in> {ToolCallStateCompleted, ToolCallStateFailed}"
    by (auto split: if_splits)
  then have "rec_State r = last (state_trail r)
       \<and> state_trail r \<in>
           {[ToolCallStatePending, ToolCallStateFailed],
            [ToolCallStatePending, ToolCallStateExecuting, ToolCallStateCompleted],
            [ToolCallStatePending, ToolCallStateExecuting, ToolCallStateFailed]}
       \<and> transitions r \<in>
           {[(ToolCallStatePending, ToolCallStateFailed)],
            [(ToolCallStatePending, ToolCallStateExecuting),
             (ToolCallStateExecuting, ToolCallStateCompleted)],
            [(ToolCallStatePending, ToolCallStateExecuting),
             (ToolCallStateExecuting, ToolCallStateFailed)]}
       \<and> (\<forall>(s, t) \<in> set (transitions r).
             \<not> spec_terminal s
             \<and> t \<notin> {ToolCallStateApprovalRequired, ToolCallStateApproved,
                      ToolCallStateDenied, ToolCallStateSealed})"
    by (auto simp: transitions_def)
  with r(1) show ?thesis
    by blast
qed

theorem engine_transitions_witness:
  "transitions (the (toolRecords (snd (executeSingleTool S_env S2_agent S2_tool_use)) ''toolu_1''))
     = [(ToolCallStatePending, ToolCallStateExecuting),
        (ToolCallStateExecuting, ToolCallStateCompleted)]"
proof -
  from engine_transitions [of S_env S2_agent S2_tool_use]
  obtain r where "toolRecords (snd (executeSingleTool S_env S2_agent S2_tool_use))
                    = (toolRecords S2_agent)(tu_ID S2_tool_use \<mapsto> r)"
    by blast
  then have "toolRecords (snd (executeSingleTool S_env S2_agent S2_tool_use)) ''toolu_1'' = Some r"
    by (simp add: S2_ids)
  then show ?thesis
    by (auto simp: S2_run transitions_def state_trail_def)
qed

text \<open>
  The claim C2 fails on scenario S2: the record goes from pending straight to executing,
  which is not among the legal edges (pending may go to approval-required, approved,
  failed or denied).
\<close>

theorem pending_to_executing_counterexample:
  "(ToolCallStatePending, ToolCallStateExecuting)
     \<in> set (transitions
              (the (toolRecords (snd (executeSingleTool S_env S2_agent S2_tool_use)) ''toolu_1'')))
   \<and> \<not> spec_legal_edge ToolCallStatePending ToolCallStateExecuting"
  by (simp add: S2_run transitions_def state_trail_def)

section \<open>Properties of chunk assembly\<close>

lemma slot_pad_update:
  "0 \<le> i \<Longrightarrow> slot ((pad_to xs i)[nat i := v]) i = Some v"
  by (auto simp: slot_def pad_to_def nth_list_update)

lemma slot_update_same:
  "slot xs i = Some w \<Longrightarrow> slot (xs[nat i := v]) i = Some v"
  by (auto simp: slot_def split: if_splits)

text \<open>The buffer of slot \<open>i\<close> after a run of partial-JSON deltas.\<close>

lemma process_json_deltas:
  assumes "currentBlockIndex asm = i"
  shows "\<exists>bufs. process_chunks env (map (input_json_delta j) parts @ rest) (a, asm)
                  = process_chunks env rest (a, asm\<lparr>inputJSONBuffers := bufs\<rparr>)
               \<and> buffer_of bufs i = buffer_of (inputJSONBuffers asm) i @ concat parts"
  using assms
proof (induction parts arbitrary: asm)
  case Nil
  have "process_chunks env rest (a, asm) =
          process_chunks env rest (a, asm\<lparr>inputJSONBuffers := inputJSONBuffers asm\<rparr>)"
    by simp
  then show ?case
    by (metis append_Nil append_Nil2 concat.simps(1) list.simps(8))
next
  case (Cons p parts)
  let ?asm1 = "asm\<lparr>inputJSONBuffers :=
                   (inputJSONBuffers asm)(i \<mapsto> buffer_of (inputJSONBuffers asm) i @ p)\<rparr>"
  have step: "process_chunk env (input_json_delta j p) (a, asm) = Inr (a, ?asm1)"
    using Cons.prems
    by (simp add: process_chunk_def input_json_delta_def str_or_empty_def Let_def)
  have "currentBlockIndex ?asm1 = i"
    using Cons.prems by simp
  from Cons.IH [OF this]
  obtain bufs where b: "process_chunks env (map (input_json_delta j) parts @ rest) (a, ?asm1)
                  = process_chunks env rest (a, ?asm1\<lparr>inputJSONBuffers := bufs\<rparr>)"
    "buffer_of bufs i = buffer_of (inputJSONBuffers ?asm1) i @ concat parts"
    by blast
  have "process_chunks env (map (input_json_delta j) (p # parts) @ rest) (a, asm)
          = process_chunks env rest (a, asm\<lparr>inputJSONBuffers := bufs\<rparr>)"
    using step b(1) by simp
  moreover have "buffer_of bufs i = buffer_of (inputJSONBuffers asm) i @ concat (p # parts)"
    using b(2) by (simp add: buffer_of_def)
  ultimately show ?case
    by blast
qed

lemma process_tool_use_start:
  "0 \<le> i \<Longrightarrow>
   process_chunk env (tool_use_start i id' name) (a, asm) =
     Inr (a, asm\<lparr>currentBlockIndex := i,
                 assistantContent := (pad_to (assistantContent asm) i)
                   [nat i := Some (ToolUseBlock \<lparr>tu_ID = id', tu_Name = name, tu_Input = []\<rparr>)]\<rparr>)"
  by (simp add: process_chunk_def tool_use_start_def str_or_empty_def str_or_panic_def Let_def)

lemma process_stop_unparsable:
  assumes "slot (assistantContent asm) (currentBlockIndex asm) = Some (Some (ToolUseBlock block))"
    and "unmarshal env (buffer_of (inputJSONBuffers asm) (currentBlockIndex asm)) = None"
  shows "process_chunk env (block_stop j) (a, asm) = Inr (a, asm)"
  using assms
  by (auto simp: process_chunk_def block_stop_def Let_def buffer_of_def split: option.splits)

text \<open>
  C4, as the code has it. A tool-use slot is opened at an index \<open>i\<close>, partial-JSON deltas
  are buffered for it, and the slot is stopped. When the buffered text (what the buffer of
  index \<open>i\<close> held before, followed by the deltas) does not parse, the chunks are processed
  without a panic, the block's input mapping is the empty mapping, and the agent is
  exactly as before: no event at all is emitted, so no \<open>MonitorError\<close> either.
\<close>

theorem unparsable_tool_input:
  assumes "0 \<le> i"
    and "unmarshal env (buffer_of (inputJSONBuffers asm) i @ concat parts) = None"
  shows "\<exists>asm'. process_chunks env
                   (tool_use_start i id' name # map (input_json_delta i) parts @ [block_stop i])
                   (a, asm) = Inr (a, asm')
               \<and> slot (assistantContent asm') i =
                   Some (Some (ToolUseBlock \<lparr>tu_ID = id', tu_Name = name, tu_Input = []\<rparr>))"
proof -
  let ?asm1 = "asm\<lparr>currentBlockIndex := i,
                 assistantContent := (pad_to (assistantContent asm) i)
                   [nat i := Some (ToolUseBlock \<lparr>tu_ID = id', tu_Name = name, tu_Input = []\<rparr>)]\<rparr>"
  have c: "currentBlockIndex ?asm1 = i"
    by simp
  from process_json_deltas [OF c, of env i parts "[block_stop i]" a]
  obtain bufs where b:
    "process_chunks env (map (input_json_delta i) parts @ [block_stop i]) (a, ?asm1)
       = process_chunks env [block_stop i] (a, ?asm1\<lparr>inputJSONBuffers := bufs\<rparr>)"
    "buffer_of bufs i = buffer_of (inputJSONBuffers ?asm1) i @ concat parts"
    by blast
  let ?asm2 = "?asm1\<lparr>inputJSONBuffers := bufs\<rparr>"
  have s: "slot (assistantContent ?asm2) (currentBlockIndex ?asm2) =
             Some (Some (ToolUseBlock \<lparr>tu_ID = id', tu_Name = name, tu_Input = []\<rparr>))"
    using assms(1) by (simp add: slot_pad_update)
  have u: "unmarshal env (buffer_of (inputJSONBuffers ?asm2) (currentBlockIndex ?asm2)) = None"
    using b(2) assms(2) by simp
  have "process_chunk env (block_stop i) (a, ?asm2) = Inr (a, ?asm2)"
    by (rule process_stop_unparsable [OF s u])
  then have "process_chunks env
                   (tool_use_start i id' name # map (input_json_delta i) parts @ [block_stop i])
                   (a, asm) = Inr (a, ?asm2)"
    using b(1) process_tool_use_start [OF assms(1), of env id' name a asm] by simp
  moreover have "slot (assistantContent ?asm2) i =
                   Some (Some (ToolUseBlock \<lparr>tu_ID = id', tu_Name = name, tu_Input = []\<rparr>))"
    using s by simp
  ultimately show ?thesis
    by blast
qed

theorem unparsable_tool_input_witness:
  "(0::int) \<le> 0
   \<and> unmarshal S_env (buffer_of (inputJSONBuffers initial_assembly) 0 @ concat [''{bad'', ''json'']) = None
   \<and> \<not> isl (process_chunks S_env
                 (tool_use_start 0 ''toolu_1'' ''bash_run''
                    # map (input_json_delta 0) [''{bad'', ''json''] @ [block_stop 0])
                 (S2_agent, initial_assembly))
   \<and> fst (projr (process_chunks S_env
                 (tool_use_start 0 ''toolu_1'' ''bash_run''
                    # map (input_json_delta 0) [''{bad'', ''json''] @ [block_stop 0])
                 (S2_agent, initial_assembly))) = S2_agent
   \<and> slot (assistantContent (snd (projr (process_chunks S_env
                 (tool_use_start 0 ''toolu_1'' ''bash_run''
                    # map (input_json_delta 0) [''{bad'', ''json''] @ [block_stop 0])
                 (S2_agent, initial_assembly))))) 0 =
         Some (Some (ToolUseBlock \<lparr>tu_ID = ''toolu_1'', tu_Name = ''bash_run'', tu_Input = []\<rparr>))"
proof -
  have i: "(0::int) \<le> 0"
    by simp
  have u: "unmarshal S_env (buffer_of (inputJSONBuffers initial_assembly) 0
             @ concat [''{bad'', ''json'']) = None"
    by (simp add: S_env_def initial_assembly_def buffer_of_def)
  from unparsable_tool_input [OF i u, of "''toolu_1''" "''bash_run''" S2_agent]
  obtain asm' where a: "process_chunks S_env
                 (tool_use_start 0 ''toolu_1'' ''bash_run''
                    # map (input_json_delta 0) [''{bad'', ''json''] @ [block_stop 0])
                 (S2_agent, initial_assembly) = Inr (S2_agent, asm')"
    "slot (assistantContent asm') 0 =
       Some (Some (ToolUseBlock \<lparr>tu_ID = ''toolu_1'', tu_Name = ''bash_run'', tu_Input = []\<rparr>))"
    by blast
  show ?thesis
    unfolding a(1) using i u a(2) by simp
qed

text \<open>
  The claim C4 fails on a stream of three chunks: a tool-use slot is opened, the text
  \<open>{bad\<close> is buffered, the slot is stopped. The text does not parse, the input stays
  empty, and the agent comes out as it went in, its event sequence still empty: no
  \<open>MonitorError\<close> has been emitted.
\<close>

theorem no_monitor_error_counterexample:
  "unmarshal S_env ''{bad'' = None
   \<and> \<not> isl (process_chunks S_env
       [tool_use_start 0 ''toolu_1'' ''bash_run'', input_json_delta 0 ''{bad'', block_stop 0]
       (S2_agent, initial_assembly))
   \<and> assistantContent (snd (projr (process_chunks S_env
       [tool_use_start 0 ''toolu_1'' ''bash_run'', input_json_delta 0 ''{bad'', block_stop 0]
       (S2_agent, initial_assembly))))
       = [Some (ToolUseBlock \<lparr>tu_ID = ''toolu_1'', tu_Name = ''bash_run'', tu_Input = []\<rparr>)]
   \<and> eventBus (fst (projr (process_chunks S_env
       [tool_use_start 0 ''toolu_1'' ''bash_run'', input_json_delta 0 ''{bad'', block_stop 0]
       (S2_agent, initial_assembly)))) = []
   \<and> filter is_MonitorError (eventBus (fst (projr (process_chunks S_env
       [tool_use_start 0 ''toolu_1'' ''bash_run'', input_json_delta 0 ''{bad'', block_stop 0]
       (S2_agent, initial_assembly))))) = []"
  by (simp add: S_env_def process_chunk_def tool_use_start_def input_json_delta_def
      block_stop_def initial_assembly_def str_or_empty_def str_or_panic_def pad_to_def
      slot_def buffer_of_def Let_def S2_agent_def)

section \<open>Properties of the step count\<close>

lemma process_chunk_keeps:
  "process_chunk env c (a, asm) = Inr (a', asm') \<Longrightarrow>
     messages a' = messages a \<and> stepCount a' = stepCount a"
  "process_chunk env c (a, asm) = Inl (p, a') \<Longrightarrow>
     messages a' = messages a \<and> stepCount a' = stepCount a"
  by (auto simp: process_chunk_def Let_def split: if_splits option.splits ContentBlock.splits prod.splits)

lemma process_chunks_keeps:
  "process_chunks env cs (a, asm) = Inr (a', asm') \<Longrightarrow>
     messages a' = messages a \<and> stepCount a' = stepCount a"
  "process_chunks env cs (a, asm) = Inl (p, a') \<Longrightarrow>
     messages a' = messages a \<and> stepCount a' = stepCount a"
proof (induction cs arbitrary: a asm)
  case Nil
  { case 1 then show ?case by simp }
  { case 2 then show ?case by simp }
next
  case (Cons c cs)
  { case 1
    then show ?case
      by (auto split: sum.splits dest!: process_chunk_keeps(1) Cons.IH(1)) }
  { case 2
    then show ?case
      by (auto split: sum.splits dest!: process_chunk_keeps Cons.IH(2)) }
qed

lemma executeSingleTool_keeps:
  "messages (snd (executeSingleTool env a tu)) = messages a"
  "stepCount (snd (executeSingleTool env a tu)) = stepCount a"
  "is_tool_result (Some (fst (executeSingleTool env a tu)))"
  by (simp_all add: executeSingleTool_def Let_def split: option.splits)

lemma run_tool_uses_keeps:
  "messages (snd (run_tool_uses env a tus)) = messages a"
  "stepCount (snd (run_tool_uses env a tus)) = stepCount a"
  "list_all is_tool_result (map Some (fst (run_tool_uses env a tus)))"
  "length (fst (run_tool_uses env a tus)) = length tus"
proof (induction tus arbitrary: a)
  case Nil
  { case 1 show ?case by simp }
  { case 2 show ?case by simp }
  { case 3 show ?case by simp }
  { case 4 show ?case by simp }
next
  case (Cons tu tus)
  { case 1 show ?case using Cons.IH(1) [of "snd (executeSingleTool env a tu)"] executeSingleTool_keeps(1) [of env a tu]
      by (simp split: prod.splits) (metis snd_conv) }
  { case 2 show ?case using Cons.IH(2) [of "snd (executeSingleTool env a tu)"] executeSingleTool_keeps(2) [of env a tu]
      by (simp split: prod.splits) (metis snd_conv) }
  { case 3 show ?case using Cons.IH(3) [of "snd (executeSingleTool env a tu)"] executeSingleTool_keeps(3) [of env a tu]
      by (simp split: prod.splits) (metis fst_conv snd_conv) }
  { case 4 show ?case using Cons.IH(4) [of "snd (executeSingleTool env a tu)"]
      by (simp split: prod.splits) (metis fst_conv snd_conv) }
qed


lemma tool_rounds_append: "tool_rounds (xs @ ys) = tool_rounds xs + tool_rounds ys"
  by (simp add: tool_rounds_def)

lemma assistant_not_round:
  "tool_rounds [\<lparr>msg_Role = MessageRoleAssistant, msg_Content = c\<rparr>] = 0"
  by (simp add: tool_rounds_def is_tool_round_def)

lemma results_are_round:
  "tus \<noteq> [] \<Longrightarrow>
   tool_rounds [\<lparr>msg_Role = MessageRoleUser,
                 msg_Content = map Some (fst (run_tool_uses env a tus))\<rparr>] = 1"
  using run_tool_uses_keeps(3,4) [of env a tus]
  by (auto simp: tool_rounds_def is_tool_round_def)

lemma step_loop_grows:
  "\<exists>new. messages (snd (runModelStep env a answers)) = messages a @ new
        \<and> stepCount (snd (runModelStep env a answers)) = stepCount a + of_nat (tool_rounds new)"
  "toolUses \<noteq> [] \<Longrightarrow>
   \<exists>new. messages (snd (executeTools env a toolUses answers)) = messages a @ new
        \<and> stepCount (snd (executeTools env a toolUses answers)) = stepCount a + of_nat (tool_rounds new)"
proof (induction env a answers and env a toolUses answers rule: runModelStep_executeTools.induct)
  case (1 env a)
  show ?case by (simp add: tool_rounds_def)
next
  case (2 env a e rest)
  show ?case by (simp add: tool_rounds_def)
next
  case (3 env a chunks rest)
  show ?case
  proof (cases "process_chunks env chunks (setBreakpoint a BreakpointStreamingModel, initial_assembly)")
    case (Inl pa)
    obtain p a1 where pa: "pa = (p, a1)" by (cases pa)
    from process_chunks_keeps(2) [OF Inl [unfolded pa]] show ?thesis
      using Inl pa by (simp add: tool_rounds_def)
  next
    case (Inr s)
    obtain a1 asm where s: "s = (a1, asm)" by (cases s)
    from process_chunks_keeps(1) [OF Inr [unfolded s]]
    have k: "messages a1 = messages a" "stepCount a1 = stepCount a" by simp_all
    let ?m = "\<lparr>msg_Role = MessageRoleAssistant, msg_Content = assistantContent asm\<rparr>"
    let ?a2 = "a1\<lparr>messages := messages a1 @ [?m]\<rparr>"
    show ?thesis
    proof (cases "Store_SaveMessages env (agent_id ?a2) (messages ?a2)")
      case (Some e)
      then show ?thesis
        using Inr s k by (auto simp: Let_def assistant_not_round)
    next
      case None
      show ?thesis
      proof (cases "tool_uses_of (assistantContent asm) = []")
        case True
        then show ?thesis
          using Inr s k None by (auto simp: Let_def assistant_not_round)
      next
        case False
        from "3.IH" [OF Inr s [symmetric] refl None refl False False]
        obtain new where n:
          "messages (snd (executeTools env (setBreakpoint ?a2 BreakpointToolPending)
               (tool_uses_of (assistantContent asm)) rest)) =
             messages (setBreakpoint ?a2 BreakpointToolPending) @ new"
          "stepCount (snd (executeTools env (setBreakpoint ?a2 BreakpointToolPending)
               (tool_uses_of (assistantContent asm)) rest)) =
             stepCount (setBreakpoint ?a2 BreakpointToolPending) + of_nat (tool_rounds new)"
          by blast
        have "messages (snd (runModelStep env a (Inr chunks # rest))) = messages a @ (?m # new)"
          using Inr s None False n(1) k by (simp add: Let_def)
        moreover have "stepCount (snd (runModelStep env a (Inr chunks # rest)))
                         = stepCount a + of_nat (tool_rounds (?m # new))"
          using Inr s None False n(2) k
            tool_rounds_append [of "[?m]" new] assistant_not_round [of "assistantContent asm"]
          by (simp add: Let_def)
        ultimately show ?thesis by blast
      qed
    qed
  qed
next
  case (4 env a toolUses rest)
  obtain toolResults a1 where r: "run_tool_uses env a toolUses = (toolResults, a1)"
    by (cases "run_tool_uses env a toolUses")
  from run_tool_uses_keeps(1,2) [of env a toolUses] r
  have k: "messages a1 = messages a" "stepCount a1 = stepCount a" by simp_all
  let ?m = "\<lparr>msg_Role = MessageRoleUser, msg_Content = map Some toolResults\<rparr>"
  let ?a2 = "a1\<lparr>messages := messages a1 @ [?m], stepCount := stepCount a1 + 1\<rparr>"
  have one: "tool_rounds [?m] = 1"
    using results_are_round [OF "4.prems", of env a] r by simp
  show ?case
  proof (cases "Store_SaveMessages env (agent_id ?a2) (messages ?a2)")
    case (Some e)
    have "messages (snd (executeTools env a toolUses rest)) = messages a @ [?m]"
      "stepCount (snd (executeTools env a toolUses rest)) = stepCount a + of_nat (tool_rounds [?m])"
      using r k Some one by (simp_all add: Let_def)
    then show ?thesis by blast
  next
    case None
    show ?thesis
    proof (cases "Store_SaveToolCallRecords env (agent_id ?a2) (toolRecords ?a2)")
      case (Some e)
      have "messages (snd (executeTools env a toolUses rest)) = messages a @ [?m]"
        "stepCount (snd (executeTools env a toolUses rest)) = stepCount a + of_nat (tool_rounds [?m])"
        using r k None Some one by (simp_all add: Let_def)
      then show ?thesis by blast
    next
      case None2: None
      from "4.IH" [OF r [symmetric] refl None None2]
      obtain new where n:
        "messages (snd (runModelStep env ?a2 rest)) = messages ?a2 @ new"
        "stepCount (snd (runModelStep env ?a2 rest)) = stepCount ?a2 + of_nat (tool_rounds new)"
        by blast
      have "messages (snd (executeTools env a toolUses rest)) = messages a @ (?m # new)"
        using r k None None2 n(1) by (simp add: Let_def)
      moreover have "stepCount (snd (executeTools env a toolUses rest))
                       = stepCount a + of_nat (tool_rounds (?m # new))"
        using r k None None2 n(2) one tool_rounds_append [of "[?m]" new]
        by (simp add: Let_def)
      ultimately show ?thesis by blast
    qed
  qed
qed

lemma Send_grows:
  "messages (snd (Send env a text)) =
     messages a @ [\<lparr>msg_Role = MessageRoleUser, msg_Content = [Some (TextBlock text)]\<rparr>]"
  "stepCount (snd (Send env a text)) = stepCount a + 1"
  by (simp_all add: Send_def Let_def split: option.splits)

lemma text_not_round:
  "tool_rounds [\<lparr>msg_Role = MessageRoleUser, msg_Content = [Some (TextBlock text)]\<rparr>] = 0"
  by (simp add: tool_rounds_def is_tool_round_def)

lemma processMessages_grows:
  "\<exists>new. messages (snd (processMessages env a answers)) = messages a @ new
        \<and> stepCount (snd (processMessages env a answers)) = stepCount a + of_nat (tool_rounds new)"
proof (cases "state a = AgentStateReady")
  case False
  then show ?thesis
    by (simp add: processMessages_def tool_rounds_def)
next
  case True
  let ?a3 = "setBreakpoint (emit (a\<lparr>state := AgentStateWorking\<rparr>)
                (MonitorStateChangedEvent AgentStateWorking)) BreakpointPreModel"
  from step_loop_grows(1) [of env ?a3 answers]
  obtain new where n: "messages (snd (runModelStep env ?a3 answers)) = messages a @ new"
    "stepCount (snd (runModelStep env ?a3 answers)) = stepCount a + of_nat (tool_rounds new)"
    by auto
  obtain r a4 where r: "runModelStep env ?a3 answers = (r, a4)"
    by (cases "runModelStep env ?a3 answers")
  have "messages (snd (processMessages env a answers)) = messages a @ new"
    "stepCount (snd (processMessages env a answers)) = stepCount a + of_nat (tool_rounds new)"
    using True r n
    by (auto simp: processMessages_def Let_def split: option.splits failure.splits)
  then show ?thesis by blast
qed

text \<open>
  C5, as the code has it. A send appends its user message and raises the step count by
  one, whether or not the store then fails; the step loop it starts raises the count by one
  for each tool round it completes, a round being one user-role message of tool results
  appended to the history. So after a send whose loop completed \<open>k\<close> tool rounds the count
  has grown by \<open>k + 1\<close> (in 64-bit arithmetic), the history having only been appended to.
  Running a single tool leaves the count alone.
\<close>

theorem step_count_growth:
  "take (length (messages a)) (messages (Send_and_process env a text answers)) = messages a
   \<and> stepCount (Send_and_process env a text answers) =
       stepCount a + 1
         + of_nat (tool_rounds (drop (length (messages a))
                                  (messages (Send_and_process env a text answers))))
   \<and> stepCount (snd (Send env a text)) = stepCount a + 1
   \<and> stepCount (snd (executeSingleTool env a tu)) = stepCount a"
proof -
  let ?u = "\<lparr>msg_Role = MessageRoleUser, msg_Content = [Some (TextBlock text)]\<rparr>"
  have "\<exists>new. messages (Send_and_process env a text answers) = messages a @ new
        \<and> stepCount (Send_and_process env a text answers)
            = stepCount a + 1 + of_nat (tool_rounds new)"
  proof (cases "fst (Send env a text)")
    case (Some e)
    then have "Send_and_process env a text answers = snd (Send env a text)"
      by (cases "Send env a text") (simp add: Send_and_process_def)
    then have "messages (Send_and_process env a text answers) = messages a @ [?u]"
      "stepCount (Send_and_process env a text answers)
         = stepCount a + 1 + of_nat (tool_rounds [?u])"
      using Send_grows [of env a "text"] text_not_round [of "text"] by simp_all
    then show ?thesis by blast
  next
    case None
    then have e: "Send_and_process env a text answers
                    = snd (processMessages env (snd (Send env a text)) answers)"
      by (cases "Send env a text") (simp add: Send_and_process_def)
    from processMessages_grows [of env "snd (Send env a text)" answers]
    obtain new where n:
      "messages (snd (processMessages env (snd (Send env a text)) answers))
         = messages (snd (Send env a text)) @ new"
      "stepCount (snd (processMessages env (snd (Send env a text)) answers))
         = stepCount (snd (Send env a text)) + of_nat (tool_rounds new)"
      by blast
    have "messages (Send_and_process env a text answers) = messages a @ (?u # new)"
      using e n(1) Send_grows(1) [of env a "text"] by simp
    moreover have "stepCount (Send_and_process env a text answers)
                     = stepCount a + 1 + of_nat (tool_rounds (?u # new))"
      using e n(2) Send_grows(2) [of env a "text"] text_not_round [of "text"]
        tool_rounds_append [of "[?u]" new]
      by simp
    ultimately show ?thesis by blast
  qed
  then obtain new where "messages (Send_and_process env a text answers) = messages a @ new"
    "stepCount (Send_and_process env a text answers) = stepCount a + 1 + of_nat (tool_rounds new)"
    by blast
  then show ?thesis
    by (simp add: Send_grows(2) executeSingleTool_keeps(2))
qed

lemma S_env_fields:
  "Store_SaveMessages S_env i ms = None" "Store_SaveToolCallRecords S_env i rs = None"
  "ctx S_env = None" "unmarshal S_env ''{}'' = Some []"
  by (simp_all add: S_env_def)

lemma S2_agent_fields:
  "messages S2_agent = []" "stepCount S2_agent = 0" "state S2_agent = AgentStateReady"
  by (simp_all add: S2_agent_def)

lemma S_text_answer:
  "process_chunks S_env S_text_reply (a, initial_assembly) =
     Inr (emit (emit (emit a (ProgressTextChunkStartEvent (stepCount a)))
                  (ProgressTextChunkEvent (stepCount a) ''hi''))
            (ProgressTextChunkEndEvent (stepCount a) ''hi''),
          \<lparr>assistantContent = [Some (TextBlock ''hi'')], currentBlockIndex = 0,
           textBuffers = [0 \<mapsto> ''hi''], inputJSONBuffers = Map.empty\<rparr>)"
  by (simp add: S_text_reply_def process_chunk_def text_start_def text_delta_def block_stop_def
      initial_assembly_def str_or_empty_def pad_to_def slot_def buffer_of_def Let_def)

lemma S_plain_run:
  "messages (Send_and_process S_env S2_agent ''hello''
              [Inr S_text_reply]) =
     [\<lparr>msg_Role = MessageRoleUser, msg_Content = [Some (TextBlock ''hello'')]\<rparr>,
      \<lparr>msg_Role = MessageRoleAssistant, msg_Content = [Some (TextBlock ''hi'')]\<rparr>]"
  by (simp add: Send_and_process_def Send_def processMessages_def Let_def S_env_fields
      S2_agent_fields S_text_answer)

theorem step_count_growth_witness:
  "stepCount (Send_and_process S_env S2_agent ''hello''
                [Inr S_text_reply]) = 1"
  using step_count_growth [of S2_agent S_env "''hello''"
      "[Inr S_text_reply]"]
  by (simp add: S_plain_run S2_agent_fields tool_rounds_def is_tool_round_def)

text \<open>
  The claim C5 fails on a send whose step loop completes no tool round: the model answers
  with text only, the history gains the user message and the assistant message, and the
  step count has gone from 0 to 1. The send alone has already raised it.
\<close>

theorem send_bumps_step_count_counterexample:
  "tool_rounds (messages (Send_and_process S_env S2_agent ''hello''
                            [Inr S_text_reply])) = 0
   \<and> stepCount S2_agent = 0
   \<and> stepCount (Send_and_process S_env S2_agent ''hello''
                   [Inr S_text_reply]) = 1
   \<and> stepCount (snd (Send S_env S2_agent ''hello'')) = 1"
  by (simp add: Send_and_process_def Send_def processMessages_def Let_def S_env_fields
      S2_agent_fields S_text_answer tool_rounds_def is_tool_round_def)

section \<open>Properties of the pool\<close>

lemma agent_Create_id:
  "cfg_AgentID (snd (agent_Create config d uuid)) =
     (if cfg_AgentID config = [] then generateAgentID uuid else cfg_AgentID config)"
  by (simp add: agent_Create_def Let_def split: sum.splits option.splits prod.splits)

lemma Pool_Create_rejects:
  "agents p (cfg_AgentID config) \<noteq> None \<or> maxAgents p \<le> pool_len p \<Longrightarrow>
   isl (fst (Pool_Create p config uuid)) \<and> snd (Pool_Create p config uuid) = (p, config)"
  by (auto simp: Pool_Create_def)

lemma Pool_Create_admits:
  assumes "agents p (cfg_AgentID config) = None" and "pool_len p < maxAgents p"
  shows "Pool_Create p config uuid =
           (case agent_Create config (deps p) uuid of
              (Inl e, config') \<Rightarrow> (Inl (''create agent: '' @ e), p, config')
            | (Inr ag, config') \<Rightarrow>
                (Inr ag, p\<lparr>agents := (agents p)(cfg_AgentID config' \<mapsto> ag)\<rparr>, config'))"
  using assms by (simp add: Pool_Create_def)

lemma pool_len_insert:
  "finite (dom (agents p)) \<Longrightarrow> agents p k = None \<Longrightarrow>
   pool_len (p\<lparr>agents := (agents p)(k \<mapsto> ag)\<rparr>) = pool_len p + 1"
  by (simp add: pool_len_def domIff)

text \<open>
  C9, as the code has it. \<open>Create\<close> returns an error and leaves the pool as it was when
  the configuration's agent id is already present, when the number of agents has reached
  \<open>maxAgents\<close>, and also when the construction of the agent fails. Otherwise it returns
  the new agent and the map differs from the old one at exactly one key, the agent id of
  the configuration as construction leaves it. For a given id that is not empty the key
  is that id, and the map has one more entry than before. For an empty id the key is the
  id the construction generates from the uuid it draws, and the map has one more entry
  than before when that generated id is not already a key (an id that is already a key is
  overwritten).
\<close>

theorem Pool_Create_cases:
  "(agents p (cfg_AgentID config) \<noteq> None \<or> maxAgents p \<le> pool_len p \<longrightarrow>
      isl (fst (Pool_Create p config uuid)) \<and> fst (snd (Pool_Create p config uuid)) = p)
   \<and> (agents p (cfg_AgentID config) = None \<and> pool_len p < maxAgents p \<longrightarrow>
        (case fst (agent_Create config (deps p) uuid) of
           Inl e \<Rightarrow>
             fst (Pool_Create p config uuid) = Inl (''create agent: '' @ e)
             \<and> fst (snd (Pool_Create p config uuid)) = p
         | Inr ag \<Rightarrow>
             fst (Pool_Create p config uuid) = Inr ag
             \<and> fst (snd (Pool_Create p config uuid)) =
                 p\<lparr>agents := (agents p)
                      ((if cfg_AgentID config = [] then generateAgentID uuid
                        else cfg_AgentID config) \<mapsto> ag)\<rparr>
             \<and> (finite (dom (agents p)) \<and> cfg_AgentID config \<noteq> [] \<longrightarrow>
                  pool_len (fst (snd (Pool_Create p config uuid))) = pool_len p + 1)
             \<and> (finite (dom (agents p)) \<and> cfg_AgentID config = []
                  \<and> agents p (generateAgentID uuid) = None \<longrightarrow>
                  pool_len (fst (snd (Pool_Create p config uuid))) = pool_len p + 1)))"
proof (rule conjI; rule impI)
  assume "agents p (cfg_AgentID config) \<noteq> None \<or> maxAgents p \<le> pool_len p"
  from Pool_Create_rejects [OF this]
  show "isl (fst (Pool_Create p config uuid)) \<and> fst (snd (Pool_Create p config uuid)) = p"
    by simp
next
  assume a: "agents p (cfg_AgentID config) = None \<and> pool_len p < maxAgents p"
  then have e: "Pool_Create p config uuid =
           (case agent_Create config (deps p) uuid of
              (Inl e, config') \<Rightarrow> (Inl (''create agent: '' @ e), p, config')
            | (Inr ag, config') \<Rightarrow>
                (Inr ag, p\<lparr>agents := (agents p)(cfg_AgentID config' \<mapsto> ag)\<rparr>, config'))"
    by (simp add: Pool_Create_admits)
  obtain r config' where c: "agent_Create config (deps p) uuid = (r, config')"
    by (cases "agent_Create config (deps p) uuid")
  have i: "cfg_AgentID config' =
             (if cfg_AgentID config = [] then generateAgentID uuid else cfg_AgentID config)"
    using agent_Create_id [of config "deps p" uuid] c by simp
  show "case fst (agent_Create config (deps p) uuid) of
           Inl e \<Rightarrow>
             fst (Pool_Create p config uuid) = Inl (''create agent: '' @ e)
             \<and> fst (snd (Pool_Create p config uuid)) = p
         | Inr ag \<Rightarrow>
             fst (Pool_Create p config uuid) = Inr ag
             \<and> fst (snd (Pool_Create p config uuid)) =
                 p\<lparr>agents := (agents p)
                      ((if cfg_AgentID config = [] then generateAgentID uuid
                        else cfg_AgentID config) \<mapsto> ag)\<rparr>
             \<and> (finite (dom (agents p)) \<and> cfg_AgentID config \<noteq> [] \<longrightarrow>
                  pool_len (fst (snd (Pool_Create p config uuid))) = pool_len p + 1)
             \<and> (finite (dom (agents p)) \<and> cfg_AgentID config = []
                  \<and> agents p (generateAgentID uuid) = None \<longrightarrow>
                  pool_len (fst (snd (Pool_Create p config uuid))) = pool_len p + 1)"
  proof (cases r)
    case (Inl err)
    then show ?thesis
      using e c by simp
  next
    case (Inr ag)
    have "finite (dom (agents p)) \<and> cfg_AgentID config \<noteq> [] \<longrightarrow>
            pool_len (p\<lparr>agents := (agents p)(cfg_AgentID config \<mapsto> ag)\<rparr>) = pool_len p + 1"
      using a pool_len_insert [of p "cfg_AgentID config" ag] by simp
    moreover have "finite (dom (agents p)) \<and> agents p (generateAgentID uuid) = None \<longrightarrow>
            pool_len (p\<lparr>agents := (agents p)(generateAgentID uuid \<mapsto> ag)\<rparr>) = pool_len p + 1"
      using pool_len_insert [of p "generateAgentID uuid" ag] by simp
    ultimately show ?thesis
      using e c i Inr by auto
  qed
qed

lemma S_create_ok:
  "fst (agent_Create S_config S_deps uuid) =
     Inr \<lparr>agent_id = ''agent-1'', systemPrompt = ''You are helpful.'',
          toolMap = [''bash_run'' \<mapsto> S2_bash_run], state = AgentStateReady,
          breakpoint = BreakpointReady, messages = [], toolRecords = Map.empty,
          stepCount = 0, eventBus = [], executor_calls = []\<rparr>"
  by (simp add: agent_Create_def S_config_def S_deps_def S_template_def initialize_def Let_def)

lemma S_pool_empty:
  "agents (NewPool \<lparr>popt_Dependencies = d, popt_MaxAgents = 0\<rparr>) k = None"
  "pool_len (NewPool \<lparr>popt_Dependencies = d, popt_MaxAgents = 0\<rparr>) = 0"
  "maxAgents (NewPool \<lparr>popt_Dependencies = d, popt_MaxAgents = 0\<rparr>) = 50"
  "deps (NewPool \<lparr>popt_Dependencies = d, popt_MaxAgents = 0\<rparr>) = d"
  "finite (dom (agents (NewPool \<lparr>popt_Dependencies = d, popt_MaxAgents = 0\<rparr>)))"
  by (simp_all add: NewPool_def pool_len_def)

lemma S_create_no_id:
  "\<exists>ag. fst (agent_Create S_config_no_id S_deps uuid) = Inr ag \<and> agent_id ag = ''agt:'' @ uuid"
  by (simp add: agent_Create_def S_config_no_id_def S_config_def S_deps_def S_template_def
      initialize_def Let_def generateAgentID_def)

lemma Pool_Create_success:
  assumes "agents p (cfg_AgentID config) = None" and "pool_len p < maxAgents p"
    and "fst (agent_Create config (deps p) uuid) = Inr ag"
  shows "fst (snd (Pool_Create p config uuid)) =
           p\<lparr>agents := (agents p)
                ((if cfg_AgentID config = [] then generateAgentID uuid
                  else cfg_AgentID config) \<mapsto> ag)\<rparr>"
  using Pool_Create_admits [OF assms(1,2), of uuid] assms(3) agent_Create_id [of config "deps p" uuid]
  by (cases "agent_Create config (deps p) uuid") simp

theorem Pool_Create_cases_witness:
  "agents (NewPool \<lparr>popt_Dependencies = S_deps, popt_MaxAgents = 0\<rparr>) (cfg_AgentID S_config) = None
   \<and> pool_len (NewPool \<lparr>popt_Dependencies = S_deps, popt_MaxAgents = 0\<rparr>)
       < maxAgents (NewPool \<lparr>popt_Dependencies = S_deps, popt_MaxAgents = 0\<rparr>)
   \<and> finite (dom (agents (NewPool \<lparr>popt_Dependencies = S_deps, popt_MaxAgents = 0\<rparr>)))
   \<and> cfg_AgentID S_config \<noteq> []
   \<and> pool_len (fst (snd (Pool_Create (NewPool \<lparr>popt_Dependencies = S_deps, popt_MaxAgents = 0\<rparr>)
                            S_config ''0001''))) = 1
   \<and> map_option agent_id
       (agents (fst (snd (Pool_Create (NewPool \<lparr>popt_Dependencies = S_deps, popt_MaxAgents = 0\<rparr>)
                            S_config ''0001''))) ''agent-1'') = Some ''agent-1''
   \<and> cfg_AgentID S_config_no_id = []
   \<and> agents (NewPool \<lparr>popt_Dependencies = S_deps, popt_MaxAgents = 0\<rparr>) (generateAgentID ''0001'') = None
   \<and> pool_len (fst (snd (Pool_Create (NewPool \<lparr>popt_Dependencies = S_deps, popt_MaxAgents = 0\<rparr>)
                            S_config_no_id ''0001''))) = 1
   \<and> pool_len (fst (snd (Pool_Create
         (fst (snd (Pool_Create (NewPool \<lparr>popt_Dependencies = S_deps, popt_MaxAgents = 0\<rparr>)
                      S_config_no_id ''0001'')))
         S_config_no_id ''0002''))) = 2
   \<and> agents (fst (snd (Pool_Create (NewPool \<lparr>popt_Dependencies = S_deps, popt_MaxAgents = 0\<rparr>)
                          S_config ''0001''))) (cfg_AgentID S_config) \<noteq> None
   \<and> isl (fst (Pool_Create
         (fst (snd (Pool_Create (NewPool \<lparr>popt_Dependencies = S_deps, popt_MaxAgents = 0\<rparr>)
                      S_config ''0001'')))
         S_config ''0002''))
   \<and> pool_len (fst (snd (Pool_Create
         (fst (snd (Pool_Create (NewPool \<lparr>popt_Dependencies = S_deps, popt_MaxAgents = 0\<rparr>)
                      S_config ''0001'')))
         S_config ''0002''))) = 1"
proof -
  let ?p = "NewPool \<lparr>popt_Dependencies = S_deps, popt_MaxAgents = 0\<rparr>"
  have n: "cfg_AgentID S_config = ''agent-1''" "cfg_AgentID S_config_no_id = []"
    by (simp_all add: S_config_def S_config_no_id_def)
  have h: "agents ?p (cfg_AgentID S_config) = None \<and> pool_len ?p < maxAgents ?p"
    by (simp add: S_pool_empty)
  have f: "finite (dom (agents ?p)) \<and> cfg_AgentID S_config \<noteq> []"
    by (simp add: S_pool_empty n)
  from Pool_Create_cases [of ?p S_config "''0001''"] h
  have c: "case fst (agent_Create S_config (deps ?p) ''0001'') of
           Inl e \<Rightarrow>
             fst (Pool_Create ?p S_config ''0001'') = Inl (''create agent: '' @ e)
             \<and> fst (snd (Pool_Create ?p S_config ''0001'')) = ?p
         | Inr ag \<Rightarrow>
             fst (Pool_Create ?p S_config ''0001'') = Inr ag
             \<and> fst (snd (Pool_Create ?p S_config ''0001'')) =
                 ?p\<lparr>agents := (agents ?p)
                      ((if cfg_AgentID S_config = [] then generateAgentID ''0001''
                        else cfg_AgentID S_config) \<mapsto> ag)\<rparr>
             \<and> (finite (dom (agents ?p)) \<and> cfg_AgentID S_config \<noteq> [] \<longrightarrow>
                  pool_len (fst (snd (Pool_Create ?p S_config ''0001''))) = pool_len ?p + 1)
             \<and> (finite (dom (agents ?p)) \<and> cfg_AgentID S_config = []
                  \<and> agents ?p (generateAgentID ''0001'') = None \<longrightarrow>
                  pool_len (fst (snd (Pool_Create ?p S_config ''0001''))) = pool_len ?p + 1)"
    by blast
  have l: "pool_len (fst (snd (Pool_Create ?p S_config ''0001''))) = 1"
    using c f by (simp add: S_pool_empty S_create_ok pool_len_insert)
  have m: "agents (fst (snd (Pool_Create ?p S_config ''0001''))) ''agent-1''
             = Some (projr (fst (agent_Create S_config S_deps ''0001'')))"
    using c by (simp add: S_pool_empty(4) S_create_ok n)
  obtain ag1 where a1: "fst (agent_Create S_config_no_id (deps ?p) ''0001'') = Inr ag1"
    using S_create_no_id [of "''0001''"] by (auto simp: S_pool_empty(4))
  have h1: "agents ?p (cfg_AgentID S_config_no_id) = None" "pool_len ?p < maxAgents ?p"
    by (simp_all add: S_pool_empty)
  have p1: "fst (snd (Pool_Create ?p S_config_no_id ''0001'')) =
              ?p\<lparr>agents := (agents ?p)(generateAgentID ''0001'' \<mapsto> ag1)\<rparr>"
    using Pool_Create_success [OF h1 a1] n(2) by simp
  define q where "q = fst (snd (Pool_Create ?p S_config_no_id ''0001''))"
  have q: "q = ?p\<lparr>agents := (agents ?p)(generateAgentID ''0001'' \<mapsto> ag1)\<rparr>"
    unfolding q_def by (rule p1)
  have l1: "pool_len q = 1"
    unfolding q using pool_len_insert [of ?p "generateAgentID ''0001''" ag1]
    by (simp add: S_pool_empty)
  have q1: "agents q [] = None" "maxAgents q = 50" "deps q = S_deps"
    "finite (dom (agents q))" "agents q (generateAgentID ''0002'') = None"
    unfolding q by (simp_all add: S_pool_empty generateAgentID_def)
  obtain ag2 where a2: "fst (agent_Create S_config_no_id S_deps ''0002'') = Inr ag2"
    using S_create_no_id [of "''0002''"] by auto
  from Pool_Create_cases [of q S_config_no_id "''0002''"]
  have "pool_len (fst (snd (Pool_Create q S_config_no_id ''0002''))) = pool_len q + 1"
    using q1 l1 a2 n(2) by (simp add: pool_len_insert)
  then have l2: "pool_len (fst (snd (Pool_Create q S_config_no_id ''0002''))) = 2"
    using l1 by simp
  have l0: "pool_len (fst (snd (Pool_Create ?p S_config_no_id ''0001''))) = 1"
    using l1 unfolding q_def .
  have g: "agents ?p (generateAgentID ''0001'') = None"
    by (simp add: S_pool_empty)
  define q2 where "q2 = fst (snd (Pool_Create ?p S_config ''0001''))"
  have d2: "agents q2 (cfg_AgentID S_config) \<noteq> None"
    unfolding q2_def using m n(1) by simp
  from Pool_Create_cases [of q2 S_config "''0002''"] d2
  have r2: "isl (fst (Pool_Create q2 S_config ''0002''))
            \<and> fst (snd (Pool_Create q2 S_config ''0002'')) = q2"
    by blast
  then have l3: "pool_len (fst (snd (Pool_Create q2 S_config ''0002''))) = 1"
    using l unfolding q2_def by simp
  have r3: "isl (fst (Pool_Create q2 S_config ''0002''))"
    using r2 by simp
  show ?thesis
    using h f l m n l0 l2 g d2 r3 l3 unfolding q_def q2_def by (simp add: S_create_ok)
qed

text \<open>
  The claim C9 fails on an empty pool of capacity 50 whose template registry does not
  know the configuration's template: the id is not present and the pool is not full, yet
  \<open>Create\<close> returns an error and inserts nothing.
\<close>

theorem Pool_Create_failure_counterexample:
  "agents (NewPool \<lparr>popt_Dependencies = S_deps_no_template, popt_MaxAgents = 0\<rparr>)
      (cfg_AgentID S_config) = None
   \<and> pool_len (NewPool \<lparr>popt_Dependencies = S_deps_no_template, popt_MaxAgents = 0\<rparr>)
       < maxAgents (NewPool \<lparr>popt_Dependencies = S_deps_no_template, popt_MaxAgents = 0\<rparr>)
   \<and> fst (Pool_Create (NewPool \<lparr>popt_Dependencies = S_deps_no_template, popt_MaxAgents = 0\<rparr>)
            S_config ''0001'') = Inl ''create agent: get template: template not found: assistant''
   \<and> agents (fst (snd (Pool_Create
                (NewPool \<lparr>popt_Dependencies = S_deps_no_template, popt_MaxAgents = 0\<rparr>) S_config
                ''0001'')))
       (cfg_AgentID S_config) = None"
  by (simp add: Pool_Create_def S_pool_empty agent_Create_def S_config_def
      S_deps_no_template_def S_deps_def)

section \<open>Properties of the room\<close>

lemma collect_mentions_set: "set (collect_mentions acc xs) = set acc \<union> set xs"
  by (induction xs arbitrary: acc) auto

lemma collect_mentions_distinct: "distinct acc \<Longrightarrow> distinct (collect_mentions acc xs)"
  by (induction xs arbitrary: acc) auto

lemma mention_targets_set:
  "(n, aid) \<in> set (mention_targets ms mentions) \<longleftrightarrow> n \<in> set mentions \<and> map_of ms n = Some aid"
  by (induction mentions) (auto split: option.splits)

lemma mention_targets_distinct:
  "distinct mentions \<Longrightarrow> distinct (map fst (mention_targets ms mentions))"
proof (induction mentions)
  case Nil
  then show ?case by simp
next
  case (Cons m mentions)
  have "m \<notin> fst ` set (mention_targets ms mentions)"
    using Cons.prems by (auto simp: mention_targets_set)
  then show ?case
    using Cons by (auto split: option.splits)
qed

lemma broadcast_targets_set:
  "distinct (map fst ms) \<Longrightarrow>
   (n, aid) \<in> set (broadcast_targets ms from) \<longleftrightarrow> map_of ms n = Some aid \<and> n \<noteq> from"
  by (auto simp: broadcast_targets_def)

lemma broadcast_targets_distinct:
  "distinct (map fst ms) \<Longrightarrow> distinct (map fst (broadcast_targets ms from))"
  by (simp add: broadcast_targets_def distinct_map_filter)

lemma deliveries_members:
  "n \<in> set (map dl_Member (deliveries pool from text targets)) \<longleftrightarrow>
     (\<exists>aid. (n, aid) \<in> set targets \<and> Pool_Get pool aid \<noteq> None)"
proof (induction pool "from" "text" targets rule: deliveries.induct)
  case (1 pool "from" "text")
  then show ?case by simp
next
  case (2 pool "from" "text" name agentID targets)
  show ?case
  proof (cases "Pool_Get pool agentID")
    case None
    then show ?thesis using 2(1) by auto
  next
    case (Some ag)
    then show ?thesis using 2(2) by auto
  qed
qed

lemma deliveries_content:
  "d \<in> set (deliveries pool from text targets) \<Longrightarrow>
     dl_Text d = ''[from:'' @ from @ ''] '' @ text \<and> (dl_Member d, dl_AgentID d) \<in> set targets"
  by (induction targets) (auto split: option.splits)

lemma deliveries_distinct:
  "distinct (map fst targets) \<Longrightarrow> distinct (map dl_Member (deliveries pool from text targets))"
proof (induction targets)
  case Nil
  then show ?case by simp
next
  case (Cons t targets)
  obtain n aid where t: "t = (n, aid)" by (cases t)
  have "n \<notin> fst ` set targets"
    using Cons.prems t by simp
  then have "\<not> (\<exists>aid. (n, aid) \<in> set targets \<and> Pool_Get pool aid \<noteq> None)"
    by (metis fst_conv image_eqI)
  then have n: "n \<notin> set (map dl_Member (deliveries pool from text targets))"
    unfolding deliveries_members by simp
  have d: "distinct (map dl_Member (deliveries pool from text targets))"
    using Cons by simp
  show ?case
  proof (cases "Pool_Get pool aid")
    case None
    then show ?thesis using d t by simp
  next
    case (Some ag)
    then show ?thesis using d n t by simp
  qed
qed

lemma Join_distinct:
  "distinct (map fst (members r)) \<Longrightarrow> distinct (map fst (members (snd (Join r pool name agentID))))"
  by (auto simp: Join_def map_of_eq_None_iff)

lemma Leave_distinct:
  "distinct (map fst (members r)) \<Longrightarrow> distinct (map fst (members (snd (Leave r name))))"
  by (auto simp: Leave_def distinct_map_filter)

lemma collect_mentions_first:
  "collect_mentions acc xs = acc @ filter (\<lambda>y. y \<notin> set acc) (spec_first_occurrences xs)"
proof (induction xs arbitrary: acc)
  case Nil
  then show ?case by simp
next
  case (Cons x xs)
  show ?case
  proof (cases "x \<in> set acc")
    case True
    then have "filter (\<lambda>y. y \<notin> set acc) (filter (\<lambda>y. y \<noteq> x) (spec_first_occurrences xs))
                 = filter (\<lambda>y. y \<notin> set acc) (spec_first_occurrences xs)"
      by (auto intro: filter_cong)
    then show ?thesis
      using True Cons.IH [of acc] by simp
  next
    case False
    have "filter (\<lambda>y. y \<notin> set (acc @ [x])) (spec_first_occurrences xs)
            = filter (\<lambda>y. y \<notin> set acc) (filter (\<lambda>y. y \<noteq> x) (spec_first_occurrences xs))"
      by (auto intro: filter_cong)
    then show ?thesis
      using False Cons.IH [of "acc @ [x]"] by simp
  qed
qed

lemma extractMentions_first: "extractMentions t = spec_first_occurrences (find_mentions t)"
  by (simp add: extractMentions_def collect_mentions_first)

lemma extractMentions_distinct:
  "distinct (extractMentions t)" "set (extractMentions t) = set (find_mentions t)"
  by (simp_all add: extractMentions_def collect_mentions_distinct collect_mentions_set)

text \<open>
  C6, as the code has it. In a room and for a sender that is a member, \<open>Say\<close> returns no
  error, appends the message to the history, and starts one delivery for each target
  whose agent the pool still holds, none twice: with mentions in the text the targets are
  the mentioned names that are members (the sender too, when mentioned), without mentions
  the members other than the sender. A member whose agent is no longer in the pool is
  passed over. Every delivery goes to the agent of its member and carries the text behind
  the prefix \<open>[from:sender] \<close>. The mention list, which is also the to-list of the
  history entry, is the names found in the text with the duplicates collapsed, each name
  at its first occurrence.
\<close>

theorem Say_delivery:
  assumes "distinct (map fst (members r))" and "map_of (members r) sender \<noteq> None"
  shows "fst (Say r pool sender t) = None
   \<and> (n \<in> delivered_to (snd (snd (Say r pool sender t))) \<longleftrightarrow>
        (if extractMentions t \<noteq> []
         then n \<in> set (extractMentions t) \<and> reachable_member r pool n
         else n \<noteq> sender \<and> reachable_member r pool n))
   \<and> distinct (map dl_Member (snd (snd (Say r pool sender t))))
   \<and> (\<forall>d \<in> set (snd (snd (Say r pool sender t))).
         dl_Text d = ''[from:'' @ sender @ ''] '' @ t
         \<and> map_of (members r) (dl_Member d) = Some (dl_AgentID d))
   \<and> distinct (extractMentions t) \<and> set (extractMentions t) = set (find_mentions t)
   \<and> extractMentions t = spec_first_occurrences (find_mentions t)
   \<and> history (fst (snd (Say r pool sender t))) =
       history r @ [\<lparr>rm_From = sender, rm_To = extractMentions t, rm_Text = t\<rparr>]"
proof (cases "extractMentions t = []")
  case True
  let ?targets = "broadcast_targets (members r) sender"
  have s: "Say r pool sender t =
             (None, r\<lparr>history := history r @ [\<lparr>rm_From = sender, rm_To = [], rm_Text = t\<rparr>]\<rparr>,
              deliveries pool sender t ?targets)"
    using assms(2) True by (simp add: Say_def Let_def)
  have m: "n \<in> delivered_to (deliveries pool sender t ?targets) \<longleftrightarrow>
             n \<noteq> sender \<and> reachable_member r pool n"
    unfolding delivered_to_def deliveries_members
    using broadcast_targets_set [OF assms(1)]
    by (auto simp: reachable_member_def split: option.splits)
  have d: "distinct (map dl_Member (deliveries pool sender t ?targets))"
    by (rule deliveries_distinct [OF broadcast_targets_distinct [OF assms(1)]])
  have c: "\<forall>d \<in> set (deliveries pool sender t ?targets).
             dl_Text d = ''[from:'' @ sender @ ''] '' @ t
             \<and> map_of (members r) (dl_Member d) = Some (dl_AgentID d)"
    using deliveries_content [of _ pool sender t ?targets] broadcast_targets_set [OF assms(1)]
    by blast
  show ?thesis
    using s m d c True extractMentions_distinct [of t] extractMentions_first [of t] by simp
next
  case False
  let ?targets = "mention_targets (members r) (extractMentions t)"
  have s: "Say r pool sender t =
             (None, r\<lparr>history := history r @
                        [\<lparr>rm_From = sender, rm_To = extractMentions t, rm_Text = t\<rparr>]\<rparr>,
              deliveries pool sender t ?targets)"
    using assms(2) False by (simp add: Say_def Let_def)
  have m: "n \<in> delivered_to (deliveries pool sender t ?targets) \<longleftrightarrow>
             n \<in> set (extractMentions t) \<and> reachable_member r pool n"
    unfolding delivered_to_def deliveries_members
    by (auto simp: mention_targets_set reachable_member_def split: option.splits)
  have d: "distinct (map dl_Member (deliveries pool sender t ?targets))"
    by (rule deliveries_distinct [OF mention_targets_distinct [OF extractMentions_distinct(1)]])
  have c: "\<forall>d \<in> set (deliveries pool sender t ?targets).
             dl_Text d = ''[from:'' @ sender @ ''] '' @ t
             \<and> map_of (members r) (dl_Member d) = Some (dl_AgentID d)"
    using deliveries_content [of _ pool sender t ?targets] mention_targets_set
    by blast
  show ?thesis
    using s m d c False extractMentions_distinct [of t] extractMentions_first [of t] by simp
qed

lemma S6_pool_agents:
  "agents S6_pool ''agent-1'' \<noteq> None" "agents S6_pool ''agent-2'' \<noteq> None"
proof -
  let ?p0 = "NewPool \<lparr>popt_Dependencies = S_deps, popt_MaxAgents = 0\<rparr>"
  let ?c2 = "S_config\<lparr>cfg_AgentID := ''agent-2''\<rparr>"
  obtain ag1 where a1: "fst (agent_Create S_config S_deps ''0001'') = Inr ag1"
    using S_create_ok by blast
  have i1: "cfg_AgentID (snd (agent_Create S_config S_deps ''0001'')) = ''agent-1''"
    by (simp add: agent_Create_id S_config_def)
  have n1: "agents ?p0 (cfg_AgentID S_config) = None" "pool_len ?p0 < maxAgents ?p0"
    by (simp_all add: S_pool_empty)
  have p1: "fst (snd (Pool_Create ?p0 S_config ''0001'')) = ?p0\<lparr>agents := [''agent-1'' \<mapsto> ag1]\<rparr>"
    using a1 i1 Pool_Create_admits [OF n1]
    by (cases "agent_Create S_config S_deps ''0001''") (simp add: S_pool_empty(4) NewPool_def)
  let ?p1 = "?p0\<lparr>agents := [''agent-1'' \<mapsto> ag1]\<rparr>"
  have "\<exists>ag2. fst (agent_Create ?c2 S_deps ''0002'') = Inr ag2"
    by (simp add: agent_Create_def S_config_def S_deps_def S_template_def initialize_def Let_def)
  then obtain ag2 where a2: "fst (agent_Create ?c2 S_deps ''0002'') = Inr ag2"
    by blast
  have i2: "cfg_AgentID (snd (agent_Create ?c2 S_deps ''0002'')) = ''agent-2''"
    by (simp add: agent_Create_id S_config_def)
  have l1: "pool_len ?p1 = 1" "maxAgents ?p1 = 50" "deps ?p1 = S_deps"
    by (simp_all add: pool_len_def NewPool_def)
  have n2: "agents ?p1 (cfg_AgentID ?c2) = None" "pool_len ?p1 < maxAgents ?p1"
    using l1 by simp_all
  have p2: "fst (snd (Pool_Create ?p1 ?c2 ''0002'')) =
              ?p1\<lparr>agents := [''agent-1'' \<mapsto> ag1, ''agent-2'' \<mapsto> ag2]\<rparr>"
    using a2 i2 l1(3) Pool_Create_admits [OF n2]
    by (cases "agent_Create ?c2 S_deps ''0002''") simp
  have e: "agents S6_pool = [''agent-1'' \<mapsto> ag1, ''agent-2'' \<mapsto> ag2]"
    unfolding S6_pool_def p1 p2 by simp
  show "agents S6_pool ''agent-1'' \<noteq> None" "agents S6_pool ''agent-2'' \<noteq> None"
    unfolding e by simp_all
qed

lemma S6_room_members: "members S6_room = [(''alice'', ''agent-1''), (''bob'', ''agent-2'')]"
  using S6_pool_agents by (simp add: S6_room_def Join_def NewRoom_def Pool_Get_def)

lemma S6_after_remove:
  "agents S6_pool_after_remove ''agent-1'' \<noteq> None" "agents S6_pool_after_remove ''agent-2'' = None"
  using S6_pool_agents
  by (auto simp: S6_pool_after_remove_def Pool_Remove_def split: option.splits)

lemma mentions_hi_bob: "extractMentions ''hi @bob'' = [''bob'']"
  by code_simp

lemma mentions_repeated: "extractMentions ''@bob hi @alice and @bob'' = [''bob'', ''alice'']"
  by code_simp

lemma mentions_hello_all: "extractMentions ''hello all'' = []"
  by code_simp

theorem Say_delivery_witness:
  "distinct (map fst (members S6_room)) \<and> map_of (members S6_room) ''alice'' \<noteq> None
   \<and> ''bob'' \<in> delivered_to (snd (snd (Say S6_room S6_pool ''alice'' ''hi @bob'')))
   \<and> ''alice'' \<notin> delivered_to (snd (snd (Say S6_room S6_pool ''alice'' ''hi @bob'')))
   \<and> map dl_Text (snd (snd (Say S6_room S6_pool ''alice'' ''hi @bob''))) = [''[from:alice] hi @bob'']
   \<and> spec_first_occurrences (find_mentions ''@bob hi @alice and @bob'') = [''bob'', ''alice'']"
proof -
  have h: "distinct (map fst (members S6_room))" "map_of (members S6_room) ''alice'' \<noteq> None"
    by (simp_all add: S6_room_members)
  have f: "spec_first_occurrences (find_mentions ''@bob hi @alice and @bob'') = [''bob'', ''alice'']"
    using Say_delivery [OF h, of S6_pool "''@bob hi @alice and @bob''" "''bob''"] mentions_repeated
    by simp
  have r: "reachable_member S6_room S6_pool ''bob''"
    using S6_pool_agents by (simp add: reachable_member_def S6_room_members Pool_Get_def)
  have t: "map dl_Text (snd (snd (Say S6_room S6_pool ''alice'' ''hi @bob'')))
             = [''[from:alice] hi @bob'']"
    using S6_pool_agents
    by (auto simp: Say_def S6_room_members mentions_hi_bob Pool_Get_def)
  show ?thesis
    using h r t f Say_delivery [OF h, of S6_pool "''hi @bob''" "''bob''"]
      Say_delivery [OF h, of S6_pool "''hi @bob''" "''alice''"]
    by (simp add: mentions_hi_bob)
qed

text \<open>
  The claim C6 fails once a member's agent has left the pool. \<open>alice\<close> and \<open>bob\<close> are
  members, \<open>agent-2\<close> has been removed from the pool, and \<open>alice\<close> says a text without
  mentions: the members other than the sender are \<open>bob\<close>, and nothing is delivered.
\<close>

theorem removed_agent_counterexample:
  "map_of (members S6_room) ''alice'' = Some ''agent-1''
   \<and> map_of (members S6_room) ''bob'' = Some ''agent-2''
   \<and> extractMentions ''hello all'' = []
   \<and> fst (Say S6_room S6_pool_after_remove ''alice'' ''hello all'') = None
   \<and> snd (snd (Say S6_room S6_pool_after_remove ''alice'' ''hello all'')) = []"
  using S6_after_remove
  by (simp add: S6_room_members Say_def mentions_hello_all broadcast_targets_def Pool_Get_def)

section \<open>Properties of the scheduler\<close>

lemma wrap64_id: "- (2 ^ 63) \<le> x \<Longrightarrow> x < 2 ^ 63 \<Longrightarrow> wrap64 x = x"
  by (simp add: wrap64_def)

lemma next_step_div:
  fixes n m :: int
  assumes "1 \<le> n" "0 \<le> m"
  shows "(n \<le> m + 1 - n * (m div n) \<longrightarrow> (m + 1) div n = m div n + 1 \<and> m + 1 = n * ((m + 1) div n))
       \<and> (\<not> n \<le> m + 1 - n * (m div n) \<longrightarrow> (m + 1) div n = m div n)"
proof -
  have d: "n * (m div n) + m mod n = m" by simp
  have r: "0 \<le> m mod n" "m mod n < n" using assms by simp_all
  show ?thesis
  proof (cases "n \<le> m + 1 - n * (m div n)")
    case True
    then have "m mod n = n - 1" using d r by linarith
    then have "m + 1 = n * (m div n) + n" using d by linarith
    then have e: "m + 1 = n * (m div n + 1)" by (simp add: algebra_simps)
    have "n * (m div n + 1) div n = m div n + 1"
      using assms(1) by simp
    then have "(m + 1) div n = m div n + 1"
      using e by simp
    with e True show ?thesis by simp
  next
    case False
    then have s: "m mod n + 1 < n" using d by linarith
    have "m + 1 = (m mod n + 1) + n * (m div n)" using d by linarith
    then have "(m + 1) div n = (m mod n + 1 + n * (m div n)) div n" by simp
    also have "\<dots> = (m mod n + 1) div n + m div n"
      using assms(1) by (subst div_mult_self2) simp_all
    also have "(m mod n + 1) div n = 0"
      using s r(1) by (simp add: div_pos_pos_trivial)
    finally have "(m + 1) div n = m div n" by simp
    with False show ?thesis by simp
  qed
qed

lemma trigger_count_append:
  "trigger_count tid (xs @ ys) = trigger_count tid xs + trigger_count tid ys"
  by (simp add: trigger_count_def)

lemma trigger_count_Nil: "trigger_count tid [] = 0"
  by (simp add: trigger_count_def)

lemma trigger_count_Cons:
  "trigger_count tid (x # xs) = (if is_task_call tid x then 1 else 0) + trigger_count tid xs"
  by (simp add: trigger_count_def)

lemma listener_calls_append:
  "listener_calls cb (xs @ ys) = listener_calls cb xs + listener_calls cb ys"
  by (simp add: listener_calls_def)

lemma notify_listeners_counts:
  "trigger_count tid (notify_listeners ls k) = 0"
  "listener_calls cb (notify_listeners ls k) = count_list ls (Some cb)"
  by (induction ls k rule: notify_listeners.induct)
     (simp_all add: trigger_count_def listener_calls_def)

lemma notify_tasks_keys: "map fst (fst (notify_tasks ot ts k)) = map fst ts"
  by (induction ts) (auto split: prod.splits)

lemma notify_tasks_no_listener: "listener_calls cb (snd (notify_tasks ot ts k)) = 0"
  by (induction ts) (auto simp: listener_calls_def split: prod.splits)

lemma notify_tasks_absent:
  "tid \<notin> fst ` set ts \<Longrightarrow> trigger_count tid (snd (notify_tasks ot ts k)) = 0"
  by (induction ts) (auto simp: trigger_count_def split: prod.splits)

lemma notify_tasks_present:
  assumes "distinct (map fst ts)" and "map_of ts tid = Some t"
  shows "map_of (fst (notify_tasks ot ts k)) tid =
           Some (if task_Every t \<le> wrap64 (k - task_LastTriggered t)
                 then t\<lparr>task_LastTriggered := k\<rparr> else t)
         \<and> trigger_count tid (snd (notify_tasks ot ts k)) =
             (if task_Every t \<le> wrap64 (k - task_LastTriggered t) then 1 else 0)"
  using assms
proof (induction ts)
  case Nil
  then show ?case by simp
next
  case (Cons e ts)
  obtain key task where e: "e = (key, task)" by (cases e)
  obtain ts' log where n: "notify_tasks ot ts k = (ts', log)" by (cases "notify_tasks ot ts k")
  show ?case
  proof (cases "key = tid")
    case True
    then have t: "task = t" using Cons.prems(2) e by simp
    have "tid \<notin> fst ` set ts" using Cons.prems(1) e True by auto
    from notify_tasks_absent [OF this, of ot k] have "trigger_count tid log = 0"
      using n by simp
    then show ?thesis
      using e n True t by (simp add: trigger_count_Cons trigger_count_append trigger_count_Nil)
  next
    case False
    then have "map_of ts tid = Some t" using Cons.prems(2) e by simp
    from Cons.IH [OF _ this] Cons.prems(1)
    have "map_of ts' tid =
           Some (if task_Every t \<le> wrap64 (k - task_LastTriggered t)
                 then t\<lparr>task_LastTriggered := k\<rparr> else t)
         \<and> trigger_count tid log =
             (if task_Every t \<le> wrap64 (k - task_LastTriggered t) then 1 else 0)"
      using n by simp
    then show ?thesis
      using e n False by (simp add: trigger_count_Cons trigger_count_append trigger_count_Nil)
  qed
qed

lemma NotifyStep_facts:
  "map fst (stepTasks (fst (NotifyStep s k))) = map fst (stepTasks s)"
  "stepListeners (fst (NotifyStep s k)) = stepListeners s"
  "listener_calls cb (snd (NotifyStep s k)) = count_list (stepListeners s) (Some cb)"
  using notify_tasks_keys [where ot = "has_OnTrigger s" and ts = "stepTasks s" and k = k]
    notify_tasks_no_listener [where cb = cb and ot = "has_OnTrigger s" and ts = "stepTasks s" and k = k]
  by (auto simp: NotifyStep_def listener_calls_append notify_listeners_counts split: prod.splits)

lemma NotifyStep_task:
  assumes "distinct (map fst (stepTasks s))" and "map_of (stepTasks s) tid = Some t"
  shows "map_of (stepTasks (fst (NotifyStep s k))) tid =
           Some (if task_Every t \<le> wrap64 (k - task_LastTriggered t)
                 then t\<lparr>task_LastTriggered := k\<rparr> else t)"
    and "trigger_count tid (snd (NotifyStep s k)) =
           (if task_Every t \<le> wrap64 (k - task_LastTriggered t) then 1 else 0)"
  using notify_tasks_present [OF assms, of "has_OnTrigger s" k]
  by (auto simp: NotifyStep_def trigger_count_append notify_listeners_counts split: prod.splits)

lemma notify_all_snoc:
  "notify_all s (ks @ [k]) =
     (fst (NotifyStep (fst (notify_all s ks)) k),
      snd (notify_all s ks) @ snd (NotifyStep (fst (notify_all s ks)) k))"
  by (induction ks arbitrary: s) (auto split: prod.splits)

lemma notify_all_listeners:
  "stepListeners (fst (notify_all s ks)) = stepListeners s
   \<and> listener_calls cb (snd (notify_all s ks)) = length ks * count_list (stepListeners s) (Some cb)"
proof (induction ks arbitrary: s)
  case Nil
  then show ?case by (simp add: listener_calls_def)
next
  case (Cons k ks)
  from Cons.IH [of "fst (NotifyStep s k)"] NotifyStep_facts(2) [where s = s and k = k]
    NotifyStep_facts(3) [where s = s and k = k and cb = cb]
  show ?case
    by (auto simp: listener_calls_append split: prod.splits)
qed

text \<open>
  After the notifications 1 to \<open>N\<close> a task of period \<open>n\<close> that started at 0 was last
  triggered at the largest multiple of \<open>n\<close> up to \<open>N\<close>, and has been triggered once for
  each multiple.
\<close>

lemma every_n_invariant:
  assumes "distinct (map fst (stepTasks s))" and "map_of (stepTasks s) tid = Some t"
    and "task_LastTriggered t = 0" and "1 \<le> task_Every t" and "int N < 2 ^ 63"
  shows "distinct (map fst (stepTasks (fst (notify_all s (map int [1..<Suc N])))))
       \<and> map_of (stepTasks (fst (notify_all s (map int [1..<Suc N])))) tid =
           Some (t\<lparr>task_LastTriggered := task_Every t * (int N div task_Every t)\<rparr>)
       \<and> trigger_count tid (snd (notify_all s (map int [1..<Suc N]))) =
           nat (int N div task_Every t)"
  using assms(5)
proof (induction N)
  case 0
  show ?case
    using assms(1,2,3) by (simp add: trigger_count_def)
next
  case (Suc N)
  let ?n = "task_Every t"
  let ?r = "notify_all s (map int [1..<Suc N])"
  let ?t = "t\<lparr>task_LastTriggered := ?n * (int N div ?n)\<rparr>"
  have b: "int N < 2 ^ 63" using Suc.prems by simp
  from Suc.IH [OF b]
  have d: "distinct (map fst (stepTasks (fst ?r)))"
    and l: "map_of (stepTasks (fst ?r)) tid = Some ?t"
    and c: "trigger_count tid (snd ?r) = nat (int N div ?n)"
    by simp_all
  have q: "0 \<le> int N div ?n" using assms(4) by (simp add: pos_imp_zdiv_nonneg_iff)
  have "?n * (int N div ?n) \<le> int N"
    using assms(4) by (metis mult_div_mod_eq add_increasing2 pos_mod_sign less_le_trans zero_less_one order_refl add.commute)
  moreover have "0 \<le> ?n * (int N div ?n)" using q assms(4) by simp
  ultimately have w: "wrap64 (int (Suc N) - ?n * (int N div ?n)) = int N + 1 - ?n * (int N div ?n)"
    using Suc.prems by (subst wrap64_id) simp_all
  have s: "map int [1..<Suc (Suc N)] = map int [1..<Suc N] @ [int (Suc N)]"
    by simp
  have S: "int (Suc N) = int N + 1"
    by simp
  have "(0::int) \<le> int N"
    by simp
  note a = next_step_div [OF assms(4) this]
  show ?case
  proof (cases "?n \<le> int N + 1 - ?n * (int N div ?n)")
    case True
    with a have e: "(int N + 1) div ?n = int N div ?n + 1" "int N + 1 = ?n * ((int N + 1) div ?n)"
      by blast+
    have "map_of (stepTasks (fst (NotifyStep (fst ?r) (int (Suc N))))) tid
            = Some (?t\<lparr>task_LastTriggered := int (Suc N)\<rparr>)"
      using NotifyStep_task(1) [OF d l, of "int (Suc N)"] True w by simp
    moreover have "trigger_count tid (snd (NotifyStep (fst ?r) (int (Suc N)))) = 1"
      using NotifyStep_task(2) [OF d l, of "int (Suc N)"] True w by simp
    moreover have "int (Suc N) = ?n * (int (Suc N) div ?n)"
      unfolding S by (rule e(2))
    moreover have "nat (int (Suc N) div ?n) = nat (int N div ?n) + 1"
      unfolding S e(1) using q by (simp add: nat_add_distrib)
    ultimately show ?thesis
      unfolding s notify_all_snoc
      using d c NotifyStep_facts(1) [where s = "fst ?r" and k = "int (Suc N)"]
      by (simp add: trigger_count_append)
  next
    case False
    with a have e: "(int N + 1) div ?n = int N div ?n"
      by blast
    have "map_of (stepTasks (fst (NotifyStep (fst ?r) (int (Suc N))))) tid = Some ?t"
      using NotifyStep_task(1) [OF d l, of "int (Suc N)"] False w by simp
    moreover have "trigger_count tid (snd (NotifyStep (fst ?r) (int (Suc N)))) = 0"
      using NotifyStep_task(2) [OF d l, of "int (Suc N)"] False w by simp
    moreover have "int (Suc N) div ?n = int N div ?n"
      unfolding S by (rule e)
    ultimately show ?thesis
      unfolding s notify_all_snoc
      using d c NotifyStep_facts(1) [where s = "fst ?r" and k = "int (Suc N)"]
      by (simp add: trigger_count_append)
  qed
qed

lemma assign_keys: "fst ` set (assign k v kvs) = insert k (fst ` set kvs)"
proof (induction kvs)
  case Nil
  then show ?case by simp
next
  case (Cons e kvs)
  obtain k' v' where e: "e = (k', v')" by (cases e)
  show ?case
  proof (cases "k' = k")
    case True
    then show ?thesis using e by simp
  next
    case False
    then show ?thesis using e Cons.IH by (simp add: insert_commute)
  qed
qed

lemma assign_lookup: "map_of (assign k v kvs) k = Some v"
  by (induction kvs) auto

lemma assign_distinct: "distinct (map fst kvs) \<Longrightarrow> distinct (map fst (assign k v kvs))"
proof (induction kvs)
  case Nil
  then show ?case by simp
next
  case (Cons e kvs)
  obtain k' v' where e: "e = (k', v')" by (cases e)
  show ?case
  proof (cases "k' = k")
    case True
    then show ?thesis using Cons.prems e by simp
  next
    case False
    have "k' \<notin> fst ` set (assign k v kvs)"
      using Cons.prems e False by (simp add: assign_keys)
    then show ?thesis
      using Cons e False by simp
  qed
qed

lemma EverySteps_registers:
  assumes "distinct (map fst (stepTasks s))" and "1 \<le> n"
  shows "fst (EverySteps s n cb tid) = Inr tid"
    and "distinct (map fst (stepTasks (snd (EverySteps s n cb tid))))"
    and "map_of (stepTasks (snd (EverySteps s n cb tid))) tid =
           Some \<lparr>task_ID = tid, task_Every = n, task_Callback = cb, task_LastTriggered = 0\<rparr>"
  using assms by (simp_all add: EverySteps_def assign_lookup assign_distinct)

lemma OnStep_count:
  "count_list (stepListeners (snd (OnStep s cb))) (Some cb) = count_list (stepListeners s) (Some cb) + 1"
  by (simp add: OnStep_def)

lemma cancel_after_OnStep:
  "count_list (stepListeners (snd (cancel_listener (snd (OnStep s cb)) (fst (OnStep s cb))))) (Some cb)
     = count_list (stepListeners s) (Some cb)"
  by (simp add: OnStep_def cancel_listener_def)

lemma cancel_listener_others:
  "length (stepListeners (snd (cancel_listener s h))) = length (stepListeners s)"
  "j \<noteq> ch_index h \<Longrightarrow> j < length (stepListeners s) \<Longrightarrow>
     stepListeners (snd (cancel_listener s h)) ! j = stepListeners s ! j"
  by (simp_all add: cancel_listener_def)

lemma Clear_empties: "stepTasks (Clear s) = [] \<and> stepListeners (Clear s) = []"
  by (simp add: Clear_def)

text \<open>
  What the code does keep of the counts. In a scheduler whose task map is a map (distinct
  keys), a task registered with \<open>EverySteps n\<close>, \<open>n \<ge> 1\<close>, is triggered \<open>\<lfloor>N / n\<rfloor>\<close> times by
  the notifications \<open>1, 2, ..., N\<close> delivered one after the other (\<open>N\<close> a Go \<open>int\<close>). A
  callback is called by those notifications \<open>N\<close> times for each live listener entry that
  holds it; \<open>OnStep\<close> adds one such entry and the cancel function it returns, called on
  the scheduler as \<open>OnStep\<close> left it, takes that entry away again and touches no other
  (\<open>cancel_listener_others\<close>).
\<close>

lemma step_counts:
  assumes "distinct (map fst (stepTasks s))" and "1 \<le> n" and "int N < 2 ^ 63"
  shows "fst (EverySteps s n cb tid) = Inr tid
   \<and> trigger_count tid
        (snd (notify_all (snd (EverySteps s n cb tid)) (map int [1..<Suc N]))) = nat (int N div n)
   \<and> listener_calls cb' (snd (notify_all s (map int [1..<Suc N])))
        = N * count_list (stepListeners s) (Some cb')
   \<and> count_list (stepListeners (snd (OnStep s cb'))) (Some cb')
        = count_list (stepListeners s) (Some cb') + 1
   \<and> count_list (stepListeners
          (snd (cancel_listener (snd (OnStep s cb')) (fst (OnStep s cb'))))) (Some cb')
        = count_list (stepListeners s) (Some cb')"
proof -
  let ?t = "\<lparr>task_ID = tid, task_Every = n, task_Callback = cb, task_LastTriggered = 0\<rparr>"
  note r = EverySteps_registers [OF assms(1,2), of cb tid]
  have "trigger_count tid
          (snd (notify_all (snd (EverySteps s n cb tid)) (map int [1..<Suc N])))
        = nat (int N div task_Every ?t)"
    using every_n_invariant [OF r(2) r(3) _ _ assms(3)] assms(2) by simp
  moreover have "listener_calls cb' (snd (notify_all s (map int [1..<Suc N])))
        = N * count_list (stepListeners s) (Some cb')"
    using notify_all_listeners [of s "map int [1..<Suc N]" cb'] by simp
  ultimately show ?thesis
    using r(1) OnStep_count [of s cb'] cancel_after_OnStep [of s cb'] by simp
qed

lemma step_counts_example:
  "distinct (map fst (stepTasks (NewScheduler False))) \<and> (1::int) \<le> 3 \<and> int 10 < 2 ^ 63
   \<and> trigger_count ''step-1''
        (snd (notify_all (snd (EverySteps (NewScheduler False) 3 ''compact'' ''step-1''))
               (map int [1..<Suc 10]))) = 3
   \<and> listener_calls ''log''
        (snd (notify_all (snd (OnStep (NewScheduler False) ''log'')) (map int [1..<Suc 10]))) = 10"
proof -
  have d: "distinct (map fst (stepTasks (NewScheduler False)))"
    by (simp add: NewScheduler_def)
  have d': "distinct (map fst (stepTasks (snd (OnStep (NewScheduler False) ''log''))))"
    by (simp add: NewScheduler_def OnStep_def)
  have n: "(1::int) \<le> 3"
    by simp
  have b: "int 10 < 2 ^ 63"
    by simp
  have c: "count_list (stepListeners (snd (OnStep (NewScheduler False) ''log''))) (Some ''log'') = 1"
    by (simp add: NewScheduler_def OnStep_def)
  have q: "nat (int 10 div 3) = 3"
    by simp
  show ?thesis
    using d n b q c
      step_counts [OF d n b, of "''compact''" "''step-1''" "''log''"]
      step_counts [OF d' n b, of "''compact''" "''step-1''" "''log''"]
    by simp
qed

lemma S_stale_states:
  "ch_index (fst S_with_A) = 0"
  "stepListeners (snd S_with_A) = [Some ''A'']"
  "stepListeners (snd S_with_B) = [Some ''B'']"
  "fst S_with_B = \<lparr>ch_index = 0, ch_cancelled = False\<rparr>"
  "stepListeners (snd S_after_cancel_A) = [None]"
  by (simp_all add: S_after_cancel_A_def S_with_B_def S_with_A_def OnStep_def Clear_def
      NewScheduler_def cancel_listener_def)

text \<open>
  C7. The every-steps half of the claim holds (\<open>step_counts\<close>); the listener half fails
  in the code for a cancel function that outlives \<open>Clear\<close>. Listener \<open>A\<close> is registered
  (index 0), \<open>Clear\<close> empties the listener slice, listener \<open>B\<close> is registered (index 0
  again) and then the cancel function of \<open>A\<close> is called: it clears slot 0, which now holds
  \<open>B\<close>. \<open>B\<close> is registered, its own cancel function was never called, and the
  notifications 1 to 10 call it 0 times; without the call of \<open>A\<close>'s cancel function they
  call it 10 times.
\<close>

theorem stale_cancel_silences_listener:
  "stepListeners (snd S_with_B) = [Some ''B'']
   \<and> ch_cancelled (fst S_with_B) = False
   \<and> ch_index (fst S_with_A) = ch_index (fst S_with_B)
   \<and> stepListeners (snd S_after_cancel_A) = [None]
   \<and> listener_calls ''B'' (snd (notify_all (snd S_with_B) (map int [1..<Suc 10]))) = 10
   \<and> listener_calls ''B'' (snd (notify_all (snd S_after_cancel_A) (map int [1..<Suc 10]))) = 0"
  using notify_all_listeners [of "snd S_with_B" "map int [1..<Suc 10]" "''B''"]
    notify_all_listeners [of "snd S_after_cancel_A" "map int [1..<Suc 10]" "''B''"]
  by (simp add: S_stale_states)

section \<open>Properties of the local sandbox and bash\_run\<close>

lemma is_dangerous_iff:
  "is_dangerous cmd \<longleftrightarrow> (\<exists>pattern \<in> set dangerousPatterns. MatchString pattern cmd)"
  by (simp add: is_dangerous_def list_ex_iff)

lemma blocked_output_nonempty:
  "(if er_Stderr \<lparr>er_Code = 1, er_Stdout = [], er_Stderr = ''Dangerous command blocked for security: '' @ t\<rparr> \<noteq> []
    then er_Stdout \<lparr>er_Code = 1, er_Stdout = [], er_Stderr = ''Dangerous command blocked for security: '' @ t\<rparr>
           @ [char_of (10 :: nat)]
           @ er_Stderr \<lparr>er_Code = 1, er_Stdout = [], er_Stderr = ''Dangerous command blocked for security: '' @ t\<rparr>
    else [])
   = char_of (10 :: nat) # ''Dangerous command blocked for security: '' @ t"
  by simp

text \<open>
  The local sandbox. A command that one of the dangerous patterns matches is not run by
  it: \<open>Exec\<close> leaves the host as it was (nothing is added to the commands run) and
  answers exit code 1 with the blocked-command message; \<open>bash_run\<close> over that sandbox then
  returns, without error, a mapping that starts \<open>ok = false, code = 1\<close> and whose output is
  the message.
\<close>

lemma local_sandbox_blocks:
  assumes "pattern \<in> set dangerousPatterns" and "MatchString pattern cmd"
    and "map_of input ''cmd'' = Some (JStr cmd)"
  shows "LocalSandbox_Exec cmd h =
           (Inr \<lparr>er_Code = 1, er_Stdout = [],
                 er_Stderr = ''Dangerous command blocked for security: '' @ truncate cmd 100\<rparr>, h)
         \<and> BashRunTool_Execute LocalSandbox_Exec input h =
           ((JObj [(''ok'', JBool False), (''code'', JNum 1),
                   (''output'', JStr (char_of (10 :: nat)
                       # ''Dangerous command blocked for security: '' @ truncate cmd 100)),
                   (''error'', JStr ''command exited with code 1''),
                   (''recommendations'',
                    JArr [JStr hint_check_stderr, JStr hint_check_arguments,
                          JStr hint_check_dependencies])], None), h)"
proof -
  from assms(1,2) have d: "is_dangerous cmd"
    by (auto simp: is_dangerous_iff)
  then have e: "LocalSandbox_Exec cmd h =
           (Inr \<lparr>er_Code = 1, er_Stdout = [],
                 er_Stderr = ''Dangerous command blocked for security: '' @ truncate cmd 100\<rparr>, h)"
    by (simp add: LocalSandbox_Exec_def)
  have f: "format_int 1 = ''1''"
    by code_simp
  show ?thesis
    using e assms(3) by (simp add: BashRunTool_Execute_def f)
qed

lemma local_sandbox_blocks_example:
  "seqs [Lit ''rm'', Plus Space, Lit ''-rf'', Plus Space, Lit ''/'', Alt EndText (One Space)]
     \<in> set dangerousPatterns
   \<and> MatchString (seqs [Lit ''rm'', Plus Space, Lit ''-rf'', Plus Space, Lit ''/'',
                         Alt EndText (One Space)]) ''cd /; rm  -rf /''
   \<and> map_of [(''cmd'', JStr ''cd /; rm  -rf /'')] ''cmd'' = Some (JStr ''cd /; rm  -rf /'')
   \<and> fst (LocalSandbox_Exec ''cd /; rm  -rf /''
            \<lparr>sh = (\<lambda>c. Succeeded ''removed''), commands_run = []\<rparr>) =
       Inr \<lparr>er_Code = 1, er_Stdout = [],
            er_Stderr = ''Dangerous command blocked for security: cd /; rm  -rf /''\<rparr>
   \<and> commands_run (snd (BashRunTool_Execute LocalSandbox_Exec [(''cmd'', JStr ''cd /; rm  -rf /'')]
            \<lparr>sh = (\<lambda>c. Succeeded ''removed''), commands_run = []\<rparr>)) = []"
proof -
  have p: "seqs [Lit ''rm'', Plus Space, Lit ''-rf'', Plus Space, Lit ''/'', Alt EndText (One Space)]
     \<in> set dangerousPatterns"
    by (simp add: dangerousPatterns_def)
  have m: "MatchString (seqs [Lit ''rm'', Plus Space, Lit ''-rf'', Plus Space, Lit ''/'',
                         Alt EndText (One Space)]) ''cd /; rm  -rf /''"
    by code_simp
  have c: "map_of [(''cmd'', JStr ''cd /; rm  -rf /'')] ''cmd'' = Some (JStr ''cd /; rm  -rf /'')"
    by simp
  show ?thesis
    using p m c local_sandbox_blocks [OF p m c,
        of "\<lparr>sh = (\<lambda>c. Succeeded ''removed''), commands_run = []\<rparr>"]
    by (simp add: truncate_def)
qed

lemma rm_rf_root_dangerous: "is_dangerous ''rm -rf /''"
  by code_simp

lemma format_int_0: "format_int 0 = ''0''"
  by code_simp

text \<open>
  C8. The claim holds of \<open>bash_run\<close> over the local sandbox (\<open>local_sandbox_blocks\<close>) and
  fails over the other sandboxes, whose \<open>Exec\<close> never looks at the patterns. The command
  \<open>rm -rf /\<close> matches a dangerous pattern; \<open>bash_run\<close> over the mock sandbox answers
  \<open>ok = true, code = 0\<close> with the mock output and no blocked-command message, and over the
  Aliyun sandbox the command is sent to the remote shell and its answer, exit code 0, is
  returned as \<open>ok = true\<close>.
\<close>

theorem bash_run_not_blocked_elsewhere:
  "is_dangerous ''rm -rf /''
   \<and> BashRunTool_Execute MockSandbox_Exec [(''cmd'', JStr ''rm -rf /'')] () =
       ((JObj [(''ok'', JBool True), (''code'', JNum 0),
               (''output'', JStr ''Mock output for: rm -rf /'')], None), ())
   \<and> fst (BashRunTool_Execute AliyunSandbox_Exec [(''cmd'', JStr ''rm -rf /'')] S_remote) =
       (JObj [(''ok'', JBool True), (''code'', JNum 0), (''output'', JStr ''done'')], None)
   \<and> commands_sent (snd (BashRunTool_Execute AliyunSandbox_Exec [(''cmd'', JStr ''rm -rf /'')]
                           S_remote)) = [''rm -rf /'']"
  by (simp add: rm_rf_root_dangerous BashRunTool_Execute_def MockSandbox_Exec_def
      AliyunSandbox_Exec_def S_remote_def format_int_0)

end
